theory Spec2Isabelle
  imports Complex_Main
begin

section \<open>Python values and exceptions\<close>

text \<open>
  The sample is one Python file, \<^verbatim>\<open>main.py\<close>. The functions modelled here are
  \<^verbatim>\<open>_infer_input_size\<close>, \<^verbatim>\<open>_pick_preprocess_config\<close>, \<^verbatim>\<open>_pick_output_dtype\<close>,
  \<^verbatim>\<open>_read_output\<close>, \<^verbatim>\<open>_load_synsets\<close>, \<^verbatim>\<open>_load_metadata\<close>,
  \<^verbatim>\<open>_build_imagenet_labels\<close> and \<^verbatim>\<open>_print_topk\<close>.

  Exceptions are values: a function that can raise returns \<open>py_error + 'a\<close>, with
  \<open>Inl\<close> for the exception. \<open>OtherError\<close> stands for any exception class that is not
  listed; every class here derives from \<^verbatim>\<open>Exception\<close>, so \<^verbatim>\<open>except Exception\<close>
  catches all of them.
\<close>

datatype py_error =
  ValueError | TypeError | IndexError | KeyError | ZeroDivisionError | OverflowError
  | FileNotFoundError | OtherError

text \<open>
  The runtime hands out buffer requirements as a \<^verbatim>\<open>dict\<close> from strings to values
  of any type. The values considered are \<^verbatim>\<open>None\<close>, integers, lists of values, and
  one-dimensional numpy integer arrays of at least two elements: \<open>PNdarray a b rest\<close> is
  \<^verbatim>\<open>np.array([a, b] + rest)\<close>. Shorter arrays are left out: what numpy does with their
  truth value and with \<^verbatim>\<open>int\<close> has changed between its versions. \<^verbatim>\<open>None\<close>, a list
  or an array inside a dimension list is a non-numeric entry.
\<close>

datatype py_value = PNone | PInt int | PList "py_value list" | PNdarray int int "int list"

type_synonym requirements = "string \<rightharpoonup> py_value"

text \<open>
  Truth value of an object: \<^verbatim>\<open>None\<close>, \<^verbatim>\<open>0\<close> and \<^verbatim>\<open>[]\<close> are false; the truth value
  of an array of more than one element is ambiguous, and asking for it raises ValueError.
\<close>

fun truthy :: "py_value \<Rightarrow> py_error + bool" where
  "truthy PNone = Inr False"
| "truthy (PInt n) = Inr (n \<noteq> 0)"
| "truthy (PList xs) = Inr (xs \<noteq> [])"
| "truthy (PNdarray a b rest) = Inl ValueError"

text \<open>
  \<^verbatim>\<open>a or b\<close> asks for the truth value of \<^verbatim>\<open>a\<close> and is \<^verbatim>\<open>a\<close> when it is true,
  else \<^verbatim>\<open>b\<close> (whose truth value is not asked for).
\<close>

definition py_or :: "py_value \<Rightarrow> py_value \<Rightarrow> py_error + py_value" where
  "py_or a b = (case truthy a of Inl e \<Rightarrow> Inl e | Inr t \<Rightarrow> Inr (if t then a else b))"

text \<open>\<^verbatim>\<open>d.get(k)\<close> is \<^verbatim>\<open>None\<close> for a missing key; \<^verbatim>\<open>d.get(k, default)\<close> is the default.\<close>

definition dict_get :: "requirements \<Rightarrow> string \<Rightarrow> py_value" where
  "dict_get d k = (case d k of None \<Rightarrow> PNone | Some v \<Rightarrow> v)"

definition dict_get_default :: "requirements \<Rightarrow> string \<Rightarrow> py_value \<Rightarrow> py_value" where
  "dict_get_default d k dflt = (case d k of None \<Rightarrow> dflt | Some v \<Rightarrow> v)"

text \<open>
  \<^verbatim>\<open>int(x)\<close>: an integer is returned as it is; \<^verbatim>\<open>None\<close>, lists and arrays of more than
  one element raise TypeError.
\<close>

fun py_int :: "py_value \<Rightarrow> py_error + int" where
  "py_int (PInt n) = Inr n"
| "py_int PNone = Inl TypeError"
| "py_int (PList xs) = Inl TypeError"
| "py_int (PNdarray a b rest) = Inl TypeError"

text \<open>
  Iterating: a list yields its elements and an array its integers; \<^verbatim>\<open>None\<close> and integers
  are not iterable.
\<close>

fun py_iter :: "py_value \<Rightarrow> py_error + py_value list" where
  "py_iter (PList xs) = Inr xs"
| "py_iter (PNdarray a b rest) = Inr (map PInt (a # b # rest))"
| "py_iter PNone = Inl TypeError"
| "py_iter (PInt n) = Inl TypeError"

text \<open>\<^verbatim>\<open>[int(dim) for dim in xs]\<close> on the elements: the first failure is raised.\<close>

fun int_each :: "py_value list \<Rightarrow> py_error + int list" where
  "int_each [] = Inr []"
| "int_each (x # xs) =
     (case py_int x of
        Inl e \<Rightarrow> Inl e
      | Inr n \<Rightarrow> (case int_each xs of Inl e \<Rightarrow> Inl e | Inr ns \<Rightarrow> Inr (n # ns)))"

definition int_list :: "py_value \<Rightarrow> py_error + int list" where
  "int_list dims = (case py_iter dims of Inl e \<Rightarrow> Inl e | Inr xs \<Rightarrow> int_each xs)"

section \<open>Shape inference: \<^verbatim>\<open>_infer_input_size\<close>\<close>

definition default_size :: "int \<times> int" where
  "default_size = (224, 224)"

text \<open>
  Lines 93 to 97: \<^verbatim>\<open>requirements.get("dimensions") or requirements.get("shape") or
  requirements.get("dims")\<close>.
\<close>

definition requirements_dims :: "requirements \<Rightarrow> py_error + py_value" where
  "requirements_dims requirements =
     (case py_or (dict_get requirements ''dimensions'') (dict_get requirements ''shape'') of
        Inl e \<Rightarrow> Inl e
      | Inr v \<Rightarrow> py_or v (dict_get requirements ''dims''))"

text \<open>
  Lines 105 to 117, on the converted integer list. \<^verbatim>\<open>dims[-1]\<close> is the last element,
  \<^verbatim>\<open>dims[1:]\<close> drops the first; every index is read under a length test that makes it
  valid. After the rank-4 block the variable \<^verbatim>\<open>dims\<close> may have been rebound, and the
  rank-3 block tests the rebound list.
\<close>

definition infer_input_size_dims :: "int list \<Rightarrow> int \<times> int" where
  "infer_input_size_dims dims0 =
     (if length dims0 = 4 \<and> dims0 ! 1 = 3 then (dims0 ! 2, dims0 ! 3)
      else if length dims0 = 4 \<and> last dims0 = 3 then (dims0 ! 1, dims0 ! 2)
      else
        let dims = (if length dims0 = 4 \<and> (dims0 ! 0 = 1 \<or> dims0 ! 0 = - 1)
                    then drop 1 dims0 else dims0)
        in if length dims = 3 \<and> dims ! 0 = 3 then (dims ! 1, dims ! 2)
           else if length dims = 3 \<and> last dims = 3 then (dims ! 0, dims ! 1)
           else default_size)"

text \<open>
  The argument is the outcome of \<^verbatim>\<open>model.get_input_buffer_requirements(0,
  signature_index)\<close>: an exception or the dict. The two \<^verbatim>\<open>try\<close> blocks (lines 89 to 92
  and 101 to 104) return the default on any exception. Lines 93 to 99, the \<^verbatim>\<open>or\<close> chain
  and \<^verbatim>\<open>if not dims\<close>, stand outside both: an exception raised there leaves the function.
\<close>

definition infer_input_size :: "py_error + requirements \<Rightarrow> py_error + int \<times> int" where
  "infer_input_size retrieval =
     (case retrieval of
        Inl e \<Rightarrow> Inr default_size
      | Inr requirements \<Rightarrow>
          (case requirements_dims requirements of
             Inl e \<Rightarrow> Inl e
           | Inr dims \<Rightarrow>
               (case truthy dims of
                  Inl e \<Rightarrow> Inl e
                | Inr t \<Rightarrow>
                    if \<not> t then Inr default_size
                    else (case int_list dims of
                            Inl e \<Rightarrow> Inr default_size
                          | Inr ds \<Rightarrow> Inr (infer_input_size_dims ds)))))"

section \<open>Output decoding: \<^verbatim>\<open>_pick_output_dtype\<close> and \<^verbatim>\<open>_read_output\<close>\<close>

datatype np_dtype = Float32 | Int8 | UInt8 | Int32

text \<open>The module-level table \<^verbatim>\<open>_LITERT_TYPE_TO_NP\<close> (lines 29 to 34).\<close>

definition LITERT_TYPE_TO_NP :: "int \<rightharpoonup> np_dtype" where
  "LITERT_TYPE_TO_NP = [1 \<mapsto> Float32, 9 \<mapsto> Int8, 3 \<mapsto> UInt8, 2 \<mapsto> Int32]"

text \<open>
  \<^verbatim>\<open>_LITERT_TYPE_TO_NP.get(key, default)\<close> with a key of any type: an integer is looked
  up, \<^verbatim>\<open>None\<close> is hashable and not a key, lists and arrays are unhashable.
\<close>

fun table_get :: "py_value \<Rightarrow> np_dtype \<Rightarrow> py_error + np_dtype" where
  "table_get (PInt k) dflt = Inr (case LITERT_TYPE_TO_NP k of None \<Rightarrow> dflt | Some t \<Rightarrow> t)"
| "table_get PNone dflt = Inr dflt"
| "table_get (PList xs) dflt = Inl TypeError"
| "table_get (PNdarray a b rest) dflt = Inl TypeError"

text \<open>
  The truth value of \<^verbatim>\<open>v == n\<close> for an integer \<open>n\<close>: \<^verbatim>\<open>None\<close> and lists differ from
  every integer; an array compares element by element, and the truth value of the array
  that results is ambiguous.
\<close>

fun py_eq_int :: "py_value \<Rightarrow> int \<Rightarrow> py_error + bool" where
  "py_eq_int (PInt m) n = Inr (m = n)"
| "py_eq_int PNone n = Inr False"
| "py_eq_int (PList xs) n = Inr False"
| "py_eq_int (PNdarray a b rest) n = Inl ValueError"

text \<open>
  \<^verbatim>\<open>n in c\<close> for an integer \<open>n\<close>: a list is scanned from the left with \<^verbatim>\<open>==\<close>; an
  array holds \<open>n\<close> when one of its elements equals it; \<^verbatim>\<open>None\<close> and integers are not
  containers.
\<close>

fun list_contains :: "int \<Rightarrow> py_value list \<Rightarrow> py_error + bool" where
  "list_contains n [] = Inr False"
| "list_contains n (x # xs) =
     (case py_eq_int x n of
        Inl e \<Rightarrow> Inl e
      | Inr eq \<Rightarrow> if eq then Inr True else list_contains n xs)"

fun py_contains :: "int \<Rightarrow> py_value \<Rightarrow> py_error + bool" where
  "py_contains n (PList xs) = list_contains n xs"
| "py_contains n (PNdarray a b rest) = Inr (n \<in> set (a # b # rest))"
| "py_contains n PNone = Inl TypeError"
| "py_contains n (PInt m) = Inl TypeError"

text \<open>\<^verbatim>\<open>c[0]\<close>.\<close>

fun py_first :: "py_value \<Rightarrow> py_error + py_value" where
  "py_first (PList []) = Inl IndexError"
| "py_first (PList (x # xs)) = Inr x"
| "py_first (PNdarray a b rest) = Inr (PInt a)"
| "py_first PNone = Inl TypeError"
| "py_first (PInt n) = Inl TypeError"

text \<open>
  The loop \<^verbatim>\<open>for type_id in (1, 9, 3, 2)\<close> of lines 175 to 177; \<open>None\<close> when it ends
  without returning. \<^verbatim>\<open>_LITERT_TYPE_TO_NP[type_id]\<close> raises KeyError on a missing key.
\<close>

fun pick_preferred :: "int list \<Rightarrow> py_value \<Rightarrow> py_error + np_dtype option" where
  "pick_preferred [] supported = Inr None"
| "pick_preferred (type_id # rest) supported =
     (case py_contains type_id supported of
        Inl e \<Rightarrow> Inl e
      | Inr found \<Rightarrow>
          if found
          then (case LITERT_TYPE_TO_NP type_id of None \<Rightarrow> Inl KeyError | Some t \<Rightarrow> Inr (Some t))
          else pick_preferred rest supported)"

definition pick_output_dtype :: "requirements \<Rightarrow> py_error + np_dtype" where
  "pick_output_dtype requirements =
     (let supported = dict_get_default requirements ''supported_types'' (PList [])
      in case pick_preferred [1, 9, 3, 2] supported of
           Inl e \<Rightarrow> Inl e
         | Inr (Some t) \<Rightarrow> Inr t
         | Inr None \<Rightarrow>
             (case truthy supported of
                Inl e \<Rightarrow> Inl e
              | Inr t \<Rightarrow>
                  if t
                  then (case py_first supported of
                          Inl e \<Rightarrow> Inl e
                        | Inr k \<Rightarrow> table_get k Float32)
                  else Inr Float32))"

text \<open>\<^verbatim>\<open>np.dtype(t).itemsize\<close>, in bytes.\<close>

fun itemsize :: "np_dtype \<Rightarrow> int" where
  "itemsize Float32 = 4"
| "itemsize Int8 = 1"
| "itemsize UInt8 = 1"
| "itemsize Int32 = 4"

text \<open>
  \<^verbatim>\<open>a // b\<close> with an integer \<open>b\<close>: floor division, as \<open>div\<close> on \<open>int\<close>. An array is
  divided element by element, and numpy gives 0 (with a warning) where \<open>b\<close> is 0.
\<close>

fun py_floordiv :: "py_value \<Rightarrow> int \<Rightarrow> py_error + py_value" where
  "py_floordiv (PInt a) b = (if b = 0 then Inl ZeroDivisionError else Inr (PInt (a div b)))"
| "py_floordiv (PNdarray a c rest) b = Inr (PNdarray (a div b) (c div b) (map (\<lambda>v. v div b) rest))"
| "py_floordiv PNone b = Inl TypeError"
| "py_floordiv (PList xs) b = Inl TypeError"

text \<open>
  \<^verbatim>\<open>buffer.read\<close> belongs to the runtime: it is the parameter \<open>buffer_read\<close>, which
  receives the element count and the dtype.
\<close>

definition read_output ::
  "(py_value \<Rightarrow> np_dtype \<Rightarrow> py_error + 'a) \<Rightarrow> requirements \<Rightarrow> py_error + 'a" where
  "read_output buffer_read requirements =
     (case pick_output_dtype requirements of
        Inl e \<Rightarrow> Inl e
      | Inr output_dtype \<Rightarrow>
          let buffer_size = dict_get_default requirements ''buffer_size'' (PInt 0)
          in (case (if itemsize output_dtype \<noteq> 0
                    then py_floordiv buffer_size (itemsize output_dtype)
                    else Inr buffer_size) of
                Inl e \<Rightarrow> Inl e
              | Inr num_elements \<Rightarrow>
                  (case py_eq_int num_elements 0 of
                     Inl e \<Rightarrow> Inl e
                   | Inr zero \<Rightarrow>
                       if zero then Inl ValueError
                       else buffer_read num_elements output_dtype)))"

section \<open>Label resolution: \<^verbatim>\<open>_load_synsets\<close>, \<^verbatim>\<open>_load_metadata\<close>, \<^verbatim>\<open>_build_imagenet_labels\<close>\<close>

text \<open>
  A string is a list of characters with code points below 256. The file system maps a path
  to the decoded text of the file; \<^verbatim>\<open>open\<close> of a path that is not there raises
  FileNotFoundError.
\<close>

type_synonym file_system = "string \<rightharpoonup> string"

definition py_open :: "file_system \<Rightarrow> string \<Rightarrow> py_error + string" where
  "py_open fs path = (case fs path of None \<Rightarrow> Inl FileNotFoundError | Some text \<Rightarrow> Inr text)"

text \<open>
  Text mode reads with universal newlines: a carriage return, alone or before a line feed,
  is read as one line feed.
\<close>

fun universal_newlines :: "string \<Rightarrow> string" where
  "universal_newlines [] = []"
| "universal_newlines [c] = (if c = CHR 0x0D then [CHR 0x0A] else [c])"
| "universal_newlines (c # d # cs) =
     (if c = CHR 0x0D
      then (if d = CHR 0x0A then CHR 0x0A # universal_newlines cs
            else CHR 0x0A # universal_newlines (d # cs))
      else c # universal_newlines (d # cs))"

text \<open>\<^verbatim>\<open>for line in f\<close>: the lines of the text, each with its line feed when it has one.\<close>

fun file_lines :: "string \<Rightarrow> string list" where
  "file_lines [] = []"
| "file_lines (c # cs) =
     (if c = CHR 0x0A then [c] # file_lines cs
      else (case file_lines cs of [] \<Rightarrow> [[c]] | l # ls \<Rightarrow> (c # l) # ls))"

definition read_lines :: "file_system \<Rightarrow> string \<Rightarrow> py_error + string list" where
  "read_lines fs path =
     (case py_open fs path of
        Inl e \<Rightarrow> Inl e
      | Inr text \<Rightarrow> Inr (file_lines (universal_newlines text)))"

text \<open>
  \<^verbatim>\<open>str.isspace\<close> below code point 256: 9 to 13, 28 to 32, 0x85 and 0xA0.
  \<^verbatim>\<open>str.strip()\<close> removes such characters at both ends.
\<close>

definition is_space :: "char \<Rightarrow> bool" where
  "is_space c =
     (let n = (of_char c :: nat)
      in (9 \<le> n \<and> n \<le> 13) \<or> (28 \<le> n \<and> n \<le> 32) \<or> n = 133 \<or> n = 160)"

definition py_strip :: "string \<Rightarrow> string" where
  "py_strip s = rev (dropWhile is_space (rev (dropWhile is_space s)))"

text \<open>
  \<^verbatim>\<open>s.partition(sep)\<close> for a one-character separator: the text before the first
  separator, the separator, the text after it; \<^verbatim>\<open>(s, '', '')\<close> when there is none.
\<close>

definition py_partition :: "char \<Rightarrow> string \<Rightarrow> string \<times> string \<times> string" where
  "py_partition sep s =
     (if sep \<in> set s
      then (takeWhile (\<lambda>c. c \<noteq> sep) s, [sep], drop 1 (dropWhile (\<lambda>c. c \<noteq> sep) s))
      else (s, [], []))"

definition load_synsets :: "file_system \<Rightarrow> string \<Rightarrow> py_error + string list option" where
  "load_synsets fs synsets_path =
     (if synsets_path = [] then Inr None
      else (case read_lines fs synsets_path of
              Inl e \<Rightarrow> Inl e
            | Inr ls \<Rightarrow> Inr (Some (map py_strip (filter (\<lambda>line. py_strip line \<noteq> []) ls)))))"

text \<open>One turn of the loop of lines 212 to 218 on the mapping built so far.\<close>

definition metadata_line :: "string \<Rightarrow> (string \<rightharpoonup> string) \<Rightarrow> (string \<rightharpoonup> string)" where
  "metadata_line line0 mapping =
     (let line = py_strip line0
      in if line = [] then mapping
         else (case py_partition (CHR 0x09) line of
                 (synset, _, label) \<Rightarrow>
                   if synset \<noteq> [] \<and> label \<noteq> [] then mapping(synset \<mapsto> label) else mapping))"

definition load_metadata :: "file_system \<Rightarrow> string \<Rightarrow> py_error + (string \<rightharpoonup> string)" where
  "load_metadata fs metadata_path =
     (if metadata_path = [] then Inr Map.empty
      else (case read_lines fs metadata_path of
              Inl e \<Rightarrow> Inl e
            | Inr ls \<Rightarrow> Inr (fold metadata_line ls Map.empty)))"

text \<open>The body of the loop of lines 232 to 234: the entry appended for one identifier.\<close>

definition label_entry :: "(string \<rightharpoonup> string) \<Rightarrow> string \<Rightarrow> string" where
  "label_entry metadata synset =
     (let label = (case metadata synset of None \<Rightarrow> synset | Some l \<Rightarrow> l)
      in if label \<noteq> synset then synset @ '' '' @ label else synset)"

text \<open>Lines 226 to 227: the identifier list after the background adjustment.\<close>

definition reconcile :: "string list \<Rightarrow> int \<Rightarrow> string list" where
  "reconcile synsets output_size =
     (if output_size = int (length synsets) + 1 then ''background'' # synsets else synsets)"

definition build_imagenet_labels ::
  "file_system \<Rightarrow> string \<Rightarrow> string \<Rightarrow> int \<Rightarrow> py_error + string list option" where
  "build_imagenet_labels fs synsets_path metadata_path output_size =
     (case load_synsets fs synsets_path of
        Inl e \<Rightarrow> Inl e
      | Inr None \<Rightarrow> Inr None
      | Inr (Some synsets0) \<Rightarrow>
          if synsets0 = [] then Inr None
          else let synsets = reconcile synsets0 output_size
               in if output_size \<noteq> int (length synsets) then Inr None
                  else (case load_metadata fs metadata_path of
                          Inl e \<Rightarrow> Inl e
                        | Inr metadata \<Rightarrow> Inr (Some (map (label_entry metadata) synsets))))"

section \<open>Preprocessing selection: \<^verbatim>\<open>_pick_preprocess_config\<close>\<close>

datatype resample_filter = BILINEAR | BICUBIC

text \<open>
  The dict returned has the same six keys on every path; it is a record. The mean and
  standard deviation hold the decimal literals of the source as rationals (their storage
  as 32-bit floats is not modelled).
\<close>

record preprocess_config =
  resize_size :: int
  crop_height :: int
  crop_width :: int
  mean :: "rat list"
  std :: "rat list"
  resample :: resample_filter

text \<open>\<^verbatim>\<open>os.path.basename\<close> on a POSIX path: what follows the last slash.\<close>

definition basename :: "string \<Rightarrow> string" where
  "basename path = rev (takeWhile (\<lambda>c. c \<noteq> CHR ''/'') (rev path))"

text \<open>
  \<^verbatim>\<open>str.lower\<close> below code point 256: the letters A to Z and the capital letters
  0xC0 to 0xDE (0xD7, the multiplication sign, apart) move up by 32.
\<close>

definition lower_char :: "char \<Rightarrow> char" where
  "lower_char c =
     (let n = (of_char c :: nat)
      in if (65 \<le> n \<and> n \<le> 90) \<or> (192 \<le> n \<and> n \<le> 222 \<and> n \<noteq> 215)
         then char_of (n + 32) else c)"

definition lower :: "string \<Rightarrow> string" where
  "lower s = map lower_char s"

text \<open>\<^verbatim>\<open>sub in s\<close> on strings: \<open>sub\<close> occurs in \<open>s\<close> as a contiguous substring.\<close>

fun starts_with :: "string \<Rightarrow> string \<Rightarrow> bool" where
  "starts_with [] s = True"
| "starts_with (p # ps) [] = False"
| "starts_with (p # ps) (c # cs) = (p = c \<and> starts_with ps cs)"

fun contains :: "string \<Rightarrow> string \<Rightarrow> bool" where
  "contains sub [] = (sub = [])"
| "contains sub (c # cs) = (starts_with sub (c # cs) \<or> contains sub cs)"

text \<open>
  \<^verbatim>\<open>round\<close> on a float rounds to the nearest integer, a tie to the even one. A finite
  float is a rational number, and \<open>py_round\<close> takes it as such.
\<close>

definition py_round :: "rat \<Rightarrow> int" where
  "py_round q =
     (let f = \<lfloor>q\<rfloor>; d = q - of_int f
      in if d < 1 / 2 then f
         else if 1 / 2 < d then f + 1
         else if even f then f else f + 1)"

text \<open>
  Python floats are IEEE 754 doubles: 53 significant bits, round to nearest, ties to the even
  significand. For \<open>2 ^ e \<le> q < 2 ^ (e + 1)\<close> the doubles around \<open>q\<close> are the multiples of
  \<open>2 ^ (e - 52)\<close>, and \<open>round_double q\<close> is the nearest one, with the exponent range taken
  as unbounded. It is used on rationals of at least 1 only (no zero, negative or subnormal
  case arises here). \<open>ilog2 n\<close> is the position of the leading bit of \<open>n\<close>.
\<close>

function ilog2 :: "int \<Rightarrow> nat" where
  "ilog2 n = (if n < 2 then 0 else Suc (ilog2 (n div 2)))"
  by pat_completeness auto
termination
  by (relation "measure nat") auto

declare ilog2.simps [simp del]

definition pow2 :: "int \<Rightarrow> rat" where
  "pow2 e = (if 0 \<le> e then 2 ^ nat e else 1 / 2 ^ nat (- e))"

definition round_double :: "rat \<Rightarrow> rat" where
  "round_double q =
     (let ulp = pow2 (int (ilog2 \<lfloor>q\<rfloor>) - 52)
      in of_int (py_round (q / ulp)) * ulp)"

text \<open>
  \<^verbatim>\<open>int(round(c / d))\<close> for an integer \<open>c\<close> of at least 1 and a float \<open>d\<close> with
  \<open>0 < d \<le> 1\<close>: \<open>c\<close> is converted to the nearest double, the quotient of the two doubles
  is rounded to the nearest double, and \<^verbatim>\<open>round\<close> gives the integer. A conversion that
  reaches \<open>2 ^ 1024\<close> raises OverflowError; a quotient that reaches it is infinite, and
  \<^verbatim>\<open>round\<close> of an infinite float raises OverflowError as well.
\<close>

definition round_div_float :: "int \<Rightarrow> rat \<Rightarrow> py_error + int" where
  "round_div_float c d =
     (let fc = round_double (of_int c)
      in if 2 ^ 1024 \<le> fc then Inl OverflowError
         else let q = round_double (fc / d)
              in if 2 ^ 1024 \<le> q then Inl OverflowError else Inr (py_round q))"

definition imagenet_mean :: "rat list" where
  "imagenet_mean = [485 / 1000, 456 / 1000, 406 / 1000]"

definition imagenet_std :: "rat list" where
  "imagenet_std = [229 / 1000, 224 / 1000, 225 / 1000]"

text \<open>The literal 0.875 is 7/8, a double.\<close>

definition pick_preprocess_config ::
  "string \<Rightarrow> int \<Rightarrow> int \<Rightarrow> py_error + preprocess_config" where
  "pick_preprocess_config model_path input_height input_width =
     (let model_name = lower (basename model_path)
      in if contains ''efficientnet_v2_s'' model_name
         then Inr \<lparr>resize_size = 384, crop_height = 384, crop_width = 384,
                   mean = imagenet_mean, std = imagenet_std, resample = BILINEAR\<rparr>
         else if contains ''efficientnet_v2_m'' model_name
         then Inr \<lparr>resize_size = 480, crop_height = 480, crop_width = 480,
                   mean = imagenet_mean, std = imagenet_std, resample = BILINEAR\<rparr>
         else if contains ''efficientnet_v2_l'' model_name
         then Inr \<lparr>resize_size = 480, crop_height = 480, crop_width = 480,
                   mean = [5 / 10, 5 / 10, 5 / 10], std = [5 / 10, 5 / 10, 5 / 10],
                   resample = BICUBIC\<rparr>
         else if contains ''efficientnet_b'' model_name
         then Inr \<lparr>resize_size = 600, crop_height = 600, crop_width = 600,
                   mean = imagenet_mean, std = imagenet_std, resample = BICUBIC\<rparr>
         else
           let crop_h = (if input_height > 0 then input_height else 224);
               crop_w = (if input_width > 0 then input_width else 224)
           in (case round_div_float (max crop_h crop_w) (875 / 1000) of
                 Inl e \<Rightarrow> Inl e
               | Inr resize \<Rightarrow>
                   Inr \<lparr>resize_size = resize, crop_height = crop_h, crop_width = crop_w,
                        mean = imagenet_mean, std = imagenet_std, resample = BILINEAR\<rparr>))"

section \<open>Top-k reporting: \<^verbatim>\<open>_print_topk\<close>\<close>

text \<open>
  The scores are a flat list over a linear order (a NaN score is outside the model).
  Indices are natural numbers, as those numpy returns. \<^verbatim>\<open>xs[i]\<close> raises IndexError
  out of range.
\<close>

definition py_getitem :: "'a list \<Rightarrow> nat \<Rightarrow> py_error + 'a" where
  "py_getitem xs i = (if i < length xs then Inr (xs ! i) else Inl IndexError)"

text \<open>\<^verbatim>\<open>xs[start:]\<close>: a negative start counts from the end, and the slice is clipped.\<close>

definition py_slice_from :: "'a list \<Rightarrow> int \<Rightarrow> 'a list" where
  "py_slice_from xs start =
     (let n = int (length xs);
          s = (if start < 0 then max 0 (n + start) else min start n)
      in drop (nat s) xs)"

text \<open>
  \<^verbatim>\<open>np.argmax\<close>: the index of the first occurrence of the maximum; ValueError on an
  empty array. The helper scans with the best index and value so far.
\<close>

fun argmax_scan :: "nat \<Rightarrow> 'a::linorder \<Rightarrow> nat \<Rightarrow> 'a list \<Rightarrow> nat" where
  "argmax_scan best bv i [] = best"
| "argmax_scan best bv i (x # xs) =
     (if bv < x then argmax_scan i x (Suc i) xs else argmax_scan best bv (Suc i) xs)"

definition argmax :: "'a::linorder list \<Rightarrow> py_error + nat" where
  "argmax flat = (case flat of [] \<Rightarrow> Inl ValueError | x # xs \<Rightarrow> Inr (argmax_scan 0 x 1 xs))"

text \<open>
  \<^verbatim>\<open>np.argsort\<close>: the indices in ascending order of score. numpy leaves the order of
  equal scores open; here equal scores keep the order of their indices.
\<close>

definition argsort :: "'a::linorder list \<Rightarrow> nat list" where
  "argsort flat = sort_key (\<lambda>i. flat ! i) [0..<length flat]"

text \<open>Lines 251 to 255: the clamped \<open>top_k\<close> and the indices reported.\<close>

definition topk_indices :: "'a::linorder list \<Rightarrow> int \<Rightarrow> py_error + nat list" where
  "topk_indices flat top_k0 =
     (let top_k = min top_k0 (int (length flat))
      in if top_k = 1
         then (case argmax flat of Inl e \<Rightarrow> Inl e | Inr i \<Rightarrow> Inr [i])
         else Inr (rev (py_slice_from (argsort flat) (- top_k))))"

text \<open>The decimal numeral of an index, as an f-string renders it.\<close>

fun str_nat :: "nat \<Rightarrow> string" where
  "str_nat n =
     (if n < 10 then [char_of (48 + n)]
      else str_nat (n div 10) @ [char_of (48 + n mod 10)])"

declare str_nat.simps [simp del]

text \<open>
  Line 257: \<^verbatim>\<open>labels[idx] if labels and idx < len(labels) else f"class_{idx}"\<close>. The
  label table is absent (\<^verbatim>\<open>None\<close>) or a list; an empty list is false.
\<close>

definition topk_label :: "string list option \<Rightarrow> nat \<Rightarrow> py_error + string" where
  "topk_label labels idx =
     (case labels of
        None \<Rightarrow> Inr (''class_'' @ str_nat idx)
      | Some ls \<Rightarrow>
          if ls \<noteq> [] \<and> idx < length ls then py_getitem ls idx
          else Inr (''class_'' @ str_nat idx))"

text \<open>
  The loop of lines 256 to 258. A printed line is the rank, the label and the score (its
  rendering with six decimals is not modelled); the first exception ends the loop.
\<close>

fun topk_lines ::
  "'a list \<Rightarrow> string list option \<Rightarrow> nat \<Rightarrow> nat list \<Rightarrow> py_error + (nat \<times> string \<times> 'a) list" where
  "topk_lines flat labels rank [] = Inr []"
| "topk_lines flat labels rank (idx # rest) =
     (case topk_label labels idx of
        Inl e \<Rightarrow> Inl e
      | Inr label \<Rightarrow>
          (case py_getitem flat idx of
             Inl e \<Rightarrow> Inl e
           | Inr score \<Rightarrow>
               (case topk_lines flat labels (Suc rank) rest of
                  Inl e \<Rightarrow> Inl e
                | Inr ls \<Rightarrow> Inr ((rank, label, score) # ls))))"

definition print_topk ::
  "'a::linorder list \<Rightarrow> string list option \<Rightarrow> int \<Rightarrow> py_error + (nat \<times> string \<times> 'a) list" where
  "print_topk flat labels top_k =
     (case topk_indices flat top_k of
        Inl e \<Rightarrow> Inl e
      | Inr indices \<Rightarrow> topk_lines flat labels 1 indices)"

section \<open>Properties of shape inference\<close>

lemma int_each_map_PInt: "int_each (map PInt ds) = Inr ds"
  by (induction ds) simp_all

lemma int_list_ints: "int_list (PList (map PInt ds)) = Inr ds"
  by (simp add: int_list_def int_each_map_PInt)

lemma infer_input_size_ints:
  assumes "requirements_dims req = Inr (PList (map PInt ds))"
  shows "infer_input_size (Inr req) =
           Inr (if ds = [] then default_size else infer_input_size_dims ds)"
  using assms by (simp add: infer_input_size_def int_list_ints)

lemma int_each_bad:
  "x \<in> set xs \<Longrightarrow> py_int x = Inl e \<Longrightarrow> \<exists>e'. int_each xs = Inl e'"
  by (induction xs) (auto split: sum.splits)

lemma int_each_length: "int_each xs = Inr ds \<Longrightarrow> length ds = length xs"
  by (induction xs arbitrary: ds) (auto split: sum.splits)

lemma infer_input_size_dims_rank:
  "length ds \<noteq> 3 \<Longrightarrow> length ds \<noteq> 4 \<Longrightarrow> infer_input_size_dims ds = default_size"
  by (simp add: infer_input_size_dims_def)

text \<open>
  Claim C1. When the dimension list read from the requirements is a list of four integers
  \<open>[n, c, h, w]\<close>, the inferred size is \<open>(h, w)\<close> if \<open>c = 3\<close> (channel first),
  else \<open>(c, h)\<close> if \<open>w = 3\<close> (channel last), else, if \<open>n\<close> is 1 or -1, whatever the
  function returns on the three-element list \<open>[c, h, w]\<close>, else (224, 224). On a
  three-element list the same two tests apply without the batch axis. A list that matches
  neither test yields (224, 224). The canonical shapes (1, 3, 224, 224) and
  (1, 224, 224, 3) are evaluated in the witness.
\<close>

theorem infer_input_size_rank4:
  assumes "requirements_dims req = Inr (PList [PInt n, PInt c, PInt h, PInt w])"
    and "requirements_dims req3 = Inr (PList [PInt c, PInt h, PInt w])"
  shows "infer_input_size (Inr req) =
           (if c = 3 then Inr (h, w)
            else if w = 3 then Inr (c, h)
            else if n = 1 \<or> n = - 1 then infer_input_size (Inr req3)
            else Inr (224, 224))
         \<and> infer_input_size (Inr req3) =
             (if c = 3 then Inr (h, w) else if w = 3 then Inr (c, h) else Inr (224, 224))
         \<and> (c \<noteq> 3 \<and> w \<noteq> 3 \<longrightarrow>
               infer_input_size (Inr req) = Inr (224, 224)
               \<and> infer_input_size (Inr req3) = Inr (224, 224))"
proof -
  have r4: "infer_input_size (Inr req) = Inr (infer_input_size_dims [n, c, h, w])"
    using infer_input_size_ints [of req "[n, c, h, w]"] assms(1) by simp
  have r3: "infer_input_size (Inr req3) = Inr (infer_input_size_dims [c, h, w])"
    using infer_input_size_ints [of req3 "[c, h, w]"] assms(2) by simp
  have d4: "infer_input_size_dims [n, c, h, w] =
              (if c = 3 then (h, w) else if w = 3 then (c, h) else (224, 224))"
    by (simp add: infer_input_size_dims_def default_size_def)
  have d3: "infer_input_size_dims [c, h, w] =
              (if c = 3 then (h, w) else if w = 3 then (c, h) else (224, 224))"
    by (simp add: infer_input_size_dims_def default_size_def)
  show ?thesis
    unfolding r4 r3 d4 d3 by simp
qed

theorem infer_input_size_rank4_witness:
  "requirements_dims [''dimensions'' \<mapsto> PList [PInt 1, PInt 3, PInt 224, PInt 224]]
     = Inr (PList [PInt 1, PInt 3, PInt 224, PInt 224])
   \<and> requirements_dims [''dimensions'' \<mapsto> PList [PInt 3, PInt 224, PInt 224]]
     = Inr (PList [PInt 3, PInt 224, PInt 224])
   \<and> infer_input_size (Inr [''dimensions'' \<mapsto> PList [PInt 1, PInt 3, PInt 224, PInt 224]])
     = Inr (224, 224)
   \<and> requirements_dims [''shape'' \<mapsto> PList [PInt 1, PInt 224, PInt 224, PInt 3]]
     = Inr (PList [PInt 1, PInt 224, PInt 224, PInt 3])
   \<and> requirements_dims [''shape'' \<mapsto> PList [PInt 224, PInt 224, PInt 3]]
     = Inr (PList [PInt 224, PInt 224, PInt 3])
   \<and> infer_input_size (Inr [''shape'' \<mapsto> PList [PInt 1, PInt 224, PInt 224, PInt 3]])
     = Inr (224, 224)"
proof -
  have a: "requirements_dims [''dimensions'' \<mapsto> PList [PInt 1, PInt 3, PInt 224, PInt 224]]
     = Inr (PList [PInt 1, PInt 3, PInt 224, PInt 224])"
    by (simp add: requirements_dims_def dict_get_def py_or_def)
  have a3: "requirements_dims [''dimensions'' \<mapsto> PList [PInt 3, PInt 224, PInt 224]]
     = Inr (PList [PInt 3, PInt 224, PInt 224])"
    by (simp add: requirements_dims_def dict_get_def py_or_def)
  have b: "requirements_dims [''shape'' \<mapsto> PList [PInt 1, PInt 224, PInt 224, PInt 3]]
     = Inr (PList [PInt 1, PInt 224, PInt 224, PInt 3])"
    by (simp add: requirements_dims_def dict_get_def py_or_def)
  have b3: "requirements_dims [''shape'' \<mapsto> PList [PInt 224, PInt 224, PInt 3]]
     = Inr (PList [PInt 224, PInt 224, PInt 3])"
    by (simp add: requirements_dims_def dict_get_def py_or_def)
  show ?thesis
    using a a3 b b3 infer_input_size_rank4 [OF a a3] infer_input_size_rank4 [OF b b3]
    by simp
qed

text \<open>
  Where \<^verbatim>\<open>_infer_input_size\<close> does fall back. It returns the default (224, 224) when
  the retrieval raised, when the requirements hold none of the keys "dimensions", "shape",
  "dims", when the value read is false (an empty list, \<^verbatim>\<open>None\<close>, 0), when the list has
  an entry on which \<^verbatim>\<open>int\<close> raises, and when the list's length is neither 3 nor 4.
  It returns a pair whenever the \<^verbatim>\<open>or\<close> chain and the test \<^verbatim>\<open>not dims\<close> meet no
  value without a truth value.
\<close>

lemma infer_input_size_fallbacks:
  "infer_input_size (Inl e) = Inr (224, 224)
   \<and> (req ''dimensions'' = None \<and> req ''shape'' = None \<and> req ''dims'' = None \<longrightarrow>
        infer_input_size (Inr req) = Inr (224, 224))
   \<and> (requirements_dims req = Inr v \<and> truthy v = Inr False \<longrightarrow>
        infer_input_size (Inr req) = Inr (224, 224))
   \<and> (requirements_dims req = Inr (PList xs) \<and> x \<in> set xs \<and> py_int x = Inl e' \<longrightarrow>
        infer_input_size (Inr req) = Inr (224, 224))
   \<and> (requirements_dims req = Inr (PList xs) \<and> length xs \<noteq> 3 \<and> length xs \<noteq> 4 \<longrightarrow>
        infer_input_size (Inr req) = Inr (224, 224))
   \<and> (requirements_dims req = Inr v \<and> truthy v = Inr t \<longrightarrow>
        (\<exists>h w. infer_input_size (Inr req) = Inr (h, w)))"
proof -
  have failed: "infer_input_size (Inl e) = Inr (224, 224)"
    by (simp add: infer_input_size_def default_size_def)
  have nokey: "infer_input_size (Inr req) = Inr (224, 224)"
    if "req ''dimensions'' = None \<and> req ''shape'' = None \<and> req ''dims'' = None"
    using that
    by (simp add: infer_input_size_def requirements_dims_def dict_get_def py_or_def
        default_size_def)
  have falsy: "infer_input_size (Inr req) = Inr (224, 224)"
    if "requirements_dims req = Inr v \<and> truthy v = Inr False"
    using that by (simp add: infer_input_size_def default_size_def)
  have bad: "infer_input_size (Inr req) = Inr (224, 224)"
    if "requirements_dims req = Inr (PList xs) \<and> x \<in> set xs \<and> py_int x = Inl e'"
  proof -
    from that obtain e'' where "int_each xs = Inl e''"
      using int_each_bad by blast
    with that show ?thesis
      by (auto simp: infer_input_size_def int_list_def default_size_def)
  qed
  have rank: "infer_input_size (Inr req) = Inr (224, 224)"
    if "requirements_dims req = Inr (PList xs) \<and> length xs \<noteq> 3 \<and> length xs \<noteq> 4"
  proof (cases "int_each xs")
    case (Inl a)
    with that show ?thesis
      by (auto simp: infer_input_size_def int_list_def default_size_def)
  next
    case (Inr ds)
    then have "length ds = length xs" by (rule int_each_length)
    with that have "infer_input_size_dims ds = default_size"
      by (simp add: infer_input_size_dims_rank)
    with that Inr show ?thesis
      by (auto simp: infer_input_size_def int_list_def default_size_def)
  qed
  have total: "\<exists>h w. infer_input_size (Inr req) = Inr (h, w)"
    if "requirements_dims req = Inr v \<and> truthy v = Inr t"
    using that
    by (cases "infer_input_size (Inr req)")
       (auto simp: infer_input_size_def split: sum.splits if_splits)
  from failed nokey falsy bad rank total show ?thesis by blast
qed

text \<open>
  Claim C2 fails on the code. The comment of line 88 ("fall back to 224x224") and the two
  \<^verbatim>\<open>try\<close> blocks say that malformed metadata gives the default, but the \<^verbatim>\<open>or\<close>
  chain of lines 93 to 97 and the test of line 98 are outside them. When the requirements
  hold a numpy array under "dimensions" (or under "dims"), as in
  \<^verbatim>\<open>{"dimensions": np.array([1, 3, 224, 224])}\<close>, asking for the array's truth value
  raises ValueError and \<^verbatim>\<open>_infer_input_size\<close> raises it instead of returning (224, 224).
  With the same four integers in a list the function returns (224, 224).
\<close>

theorem infer_input_size_ndarray_raises:
  "infer_input_size (Inr [''dimensions'' \<mapsto> PNdarray 1 3 [224, 224]]) = Inl ValueError
   \<and> infer_input_size (Inr [''dims'' \<mapsto> PNdarray 1 3 [224, 224]]) = Inl ValueError
   \<and> infer_input_size (Inr [''dimensions'' \<mapsto> PList [PInt 1, PInt 3, PInt 224, PInt 224]])
       = Inr (224, 224)"
  by (simp add: infer_input_size_def requirements_dims_def dict_get_def py_or_def int_list_def
      infer_input_size_dims_def)

section \<open>Properties of output decoding\<close>

lemma list_contains_ints: "list_contains n (map PInt ids) = Inr (n \<in> set ids)"
  by (induction ids) auto

lemma pick_preferred_ints:
  "pick_preferred [1, 9, 3, 2] (PList (map PInt ids)) =
     Inr (if 1 \<in> set ids then Some Float32
          else if 9 \<in> set ids then Some Int8
          else if 3 \<in> set ids then Some UInt8
          else if 2 \<in> set ids then Some Int32
          else None)"
  by (simp add: LITERT_TYPE_TO_NP_def list_contains_ints)

lemma table_get_not_preferred:
  "k \<noteq> 1 \<Longrightarrow> k \<noteq> 9 \<Longrightarrow> k \<noteq> 3 \<Longrightarrow> k \<noteq> 2 \<Longrightarrow> table_get (PInt k) Float32 = Inr Float32"
  by (simp add: LITERT_TYPE_TO_NP_def)

text \<open>
  Claim C3, as amended. When the supported types are a list of integers (or the key is
  missing, which reads as the empty list), the dtype chosen is that of the first of
  1 (float32), 9 (int8), 3 (uint8), 2 (int32) that occurs in the list, wherever it stands
  in the list; when none of the four occurs, float32 is chosen, whether the list is empty
  or not.
\<close>

theorem pick_output_dtype_preference:
  assumes "dict_get_default req ''supported_types'' (PList []) = PList (map PInt ids)"
  shows "pick_output_dtype req =
           Inr (if 1 \<in> set ids then Float32
                else if 9 \<in> set ids then Int8
                else if 3 \<in> set ids then UInt8
                else if 2 \<in> set ids then Int32
                else Float32)"
proof -
  let ?supported = "dict_get_default req ''supported_types'' (PList [])"
  have pp: "pick_preferred [1, 9, 3, 2] ?supported =
     Inr (if 1 \<in> set ids then Some Float32
          else if 9 \<in> set ids then Some Int8
          else if 3 \<in> set ids then Some UInt8
          else if 2 \<in> set ids then Some Int32
          else None)"
    unfolding assms by (rule pick_preferred_ints)
  show ?thesis
  proof (cases "1 \<in> set ids \<or> 9 \<in> set ids \<or> 3 \<in> set ids \<or> 2 \<in> set ids")
    case True
    then show ?thesis
      unfolding pick_output_dtype_def Let_def pp by auto
  next
    case False
    show ?thesis
    proof (cases ids)
      case Nil
      with False show ?thesis
        unfolding pick_output_dtype_def Let_def pp by (simp add: assms)
    next
      case (Cons k rest)
      with False have "k \<noteq> 1" "k \<noteq> 9" "k \<noteq> 3" "k \<noteq> 2" by auto
      then have "table_get (PInt k) Float32 = Inr Float32"
        by (rule table_get_not_preferred)
      with False Cons show ?thesis
        unfolding pick_output_dtype_def Let_def pp by (simp add: assms)
    qed
  qed
qed

theorem pick_output_dtype_preference_witness:
  "dict_get_default [''supported_types'' \<mapsto> PList [PInt 9, PInt 1]] ''supported_types'' (PList [])
     = PList (map PInt [9, 1])
   \<and> pick_output_dtype [''supported_types'' \<mapsto> PList [PInt 9, PInt 1]] = Inr Float32
   \<and> pick_output_dtype [''supported_types'' \<mapsto> PList [PInt 1, PInt 9]] = Inr Float32
   \<and> pick_output_dtype [''supported_types'' \<mapsto> PList [PInt 2, PInt 3]] = Inr UInt8
   \<and> pick_output_dtype [''supported_types'' \<mapsto> PList [PInt 7, PInt 10]] = Inr Float32
   \<and> pick_output_dtype [''buffer_size'' \<mapsto> PInt 4000] = Inr Float32"
proof -
  have a: "dict_get_default [''supported_types'' \<mapsto> PList [PInt 9, PInt 1]]
             ''supported_types'' (PList []) = PList (map PInt [9, 1])"
    by (simp add: dict_get_default_def)
  have b: "dict_get_default [''supported_types'' \<mapsto> PList [PInt 1, PInt 9]]
             ''supported_types'' (PList []) = PList (map PInt [1, 9])"
    by (simp add: dict_get_default_def)
  have c: "dict_get_default [''supported_types'' \<mapsto> PList [PInt 2, PInt 3]]
             ''supported_types'' (PList []) = PList (map PInt [2, 3])"
    by (simp add: dict_get_default_def)
  have d: "dict_get_default [''supported_types'' \<mapsto> PList [PInt 7, PInt 10]]
             ''supported_types'' (PList []) = PList (map PInt [7, 10])"
    by (simp add: dict_get_default_def)
  have e: "dict_get_default [''buffer_size'' \<mapsto> PInt 4000]
             ''supported_types'' (PList []) = PList (map PInt [])"
    by (simp add: dict_get_default_def)
  show ?thesis
    using a pick_output_dtype_preference [OF a] pick_output_dtype_preference [OF b]
      pick_output_dtype_preference [OF c] pick_output_dtype_preference [OF d]
      pick_output_dtype_preference [OF e]
    by simp
qed

text \<open>
  Claim C3 as stated fails for a non-empty list without a preferred identifier: for the
  list [7] the first listed type is 7, which has no entry in the table, and the dtype
  returned is float32, the entry of identifier 1.
\<close>

theorem pick_output_dtype_first_listed_counterexample:
  "pick_output_dtype [''supported_types'' \<mapsto> PList [PInt 7]] = Inr Float32
   \<and> LITERT_TYPE_TO_NP 7 = None
   \<and> LITERT_TYPE_TO_NP 1 = Some Float32"
  by (simp add: pick_output_dtype_def dict_get_default_def LITERT_TYPE_TO_NP_def)

text \<open>
  Claim C4. With the chosen dtype \<open>dt\<close> and an integer buffer size \<open>n\<close> (0 when the key
  is missing), the element count is \<open>n div itemsize dt\<close>; \<^verbatim>\<open>_read_output\<close> raises
  ValueError when the count is zero and otherwise is exactly the runtime's read of that
  many elements of that dtype.
\<close>

theorem read_output_count:
  assumes "pick_output_dtype req = Inr dt"
    and "dict_get_default req ''buffer_size'' (PInt 0) = PInt n"
  shows "read_output buffer_read req =
           (if n div itemsize dt = 0 then Inl ValueError
            else buffer_read (PInt (n div itemsize dt)) dt)"
proof -
  have "itemsize dt \<noteq> 0" by (cases dt) simp_all
  with assms show ?thesis
    by (simp add: read_output_def)
qed

theorem read_output_count_witness:
  "pick_output_dtype [''supported_types'' \<mapsto> PList [PInt 9, PInt 1], ''buffer_size'' \<mapsto> PInt 4004]
     = Inr Float32
   \<and> read_output (\<lambda>n d. Inr (n, d))
        [''supported_types'' \<mapsto> PList [PInt 9, PInt 1], ''buffer_size'' \<mapsto> PInt 4004]
     = Inr (PInt 1001, Float32)
   \<and> read_output (\<lambda>n d. Inr (n, d))
        [''supported_types'' \<mapsto> PList [PInt 2], ''buffer_size'' \<mapsto> PInt 3]
     = (Inl ValueError :: py_error + py_value \<times> np_dtype)"
proof -
  let ?r1 = "[''supported_types'' \<mapsto> PList [PInt 9, PInt 1], ''buffer_size'' \<mapsto> PInt 4004]"
  let ?r2 = "[''supported_types'' \<mapsto> PList [PInt 2], ''buffer_size'' \<mapsto> PInt 3]"
  have p1: "pick_output_dtype ?r1 = Inr Float32"
    by (simp add: pick_output_dtype_def dict_get_default_def LITERT_TYPE_TO_NP_def)
  have s1: "dict_get_default ?r1 ''buffer_size'' (PInt 0) = PInt 4004"
    by (simp add: dict_get_default_def)
  have p2: "pick_output_dtype ?r2 = Inr Int32"
    by (simp add: pick_output_dtype_def dict_get_default_def LITERT_TYPE_TO_NP_def)
  have s2: "dict_get_default ?r2 ''buffer_size'' (PInt 0) = PInt 3"
    by (simp add: dict_get_default_def)
  show ?thesis
    using p1 read_output_count [OF p1 s1, of "\<lambda>n d. Inr (n, d)"]
      read_output_count [OF p2 s2, of "\<lambda>n d. Inr (n, d)"]
    by simp
qed

section \<open>Properties of label resolution\<close>

lemma label_entry_unmapped:
  "metadata synset = None \<or> metadata synset = Some synset \<Longrightarrow> label_entry metadata synset = synset"
  by (auto simp: label_entry_def)

lemma label_entry_mapped:
  "metadata synset = Some l \<Longrightarrow> l \<noteq> synset \<Longrightarrow> label_entry metadata synset = synset @ '' '' @ l"
  by (simp add: label_entry_def)

lemma map_label_entry_unmapped:
  "\<forall>s \<in> set xs. metadata s = None \<or> metadata s = Some s \<Longrightarrow> map (label_entry metadata) xs = xs"
  by (induction xs) (simp_all add: label_entry_unmapped)

lemma build_imagenet_labels_loaded:
  assumes "load_synsets fs sp = Inr (Some synsets)" and "synsets \<noteq> []"
  shows "build_imagenet_labels fs sp mp m =
           (if m \<noteq> int (length (reconcile synsets m)) then Inr None
            else (case load_metadata fs mp of
                    Inl e \<Rightarrow> Inl e
                  | Inr metadata \<Rightarrow> Inr (Some (map (label_entry metadata) (reconcile synsets m)))))"
  using assms by (simp add: build_imagenet_labels_def Let_def)

text \<open>
  Claim C7, as amended. For an empty metadata path, loading yields the empty mapping and
  does not raise, whatever the file system holds. For a non-empty path that names no file,
  \<^verbatim>\<open>open\<close> raises FileNotFoundError and \<^verbatim>\<open>_load_metadata\<close> lets it through.
\<close>

theorem load_metadata_missing_file:
  "load_metadata fs [] = Inr Map.empty
   \<and> (metadata_path \<noteq> [] \<and> fs metadata_path = None \<longrightarrow>
        load_metadata fs metadata_path = Inl FileNotFoundError)"
  by (simp add: load_metadata_def read_lines_def py_open_def)

theorem load_metadata_missing_file_witness:
  "load_metadata [''labels.txt'' \<mapsto> ''n01440764''] [] = Inr Map.empty
   \<and> ''meta.txt'' \<noteq> [] \<and> [''labels.txt'' \<mapsto> ''n01440764''] ''meta.txt'' = None
   \<and> load_metadata [''labels.txt'' \<mapsto> ''n01440764''] ''meta.txt'' = Inl FileNotFoundError"
  using load_metadata_missing_file [of "[''labels.txt'' \<mapsto> ''n01440764'']" "''meta.txt''"]
  by simp

text \<open>
  Claim C7 as stated fails: in a file system without the file, loading the path
  "imagenet_metadata.txt" raises FileNotFoundError instead of returning the empty mapping.
\<close>

theorem load_metadata_missing_file_counterexample:
  "load_metadata Map.empty ''imagenet_metadata.txt'' = Inl FileNotFoundError
   \<and> load_metadata Map.empty ''imagenet_metadata.txt'' \<noteq> Inr Map.empty"
  by (simp add: load_metadata_def read_lines_def py_open_def)

text \<open>
  Claim C6, as amended. For a non-empty class list of length \<open>n\<close> and output size \<open>m\<close>:
  if \<open>m\<close> is neither \<open>n\<close> nor \<open>n + 1\<close>, resolution returns absent (before the metadata
  is read); if \<open>m = n + 1\<close> and the metadata loads, it returns \<open>n + 1\<close> labels, the entry
  of the synthetic identifier "background" followed by the entries of the class list; if
  \<open>m = n\<close> and the metadata loads, it returns the \<open>n\<close> entries of the class list, none
  added and none removed. If \<open>m\<close> is \<open>n\<close> or \<open>n + 1\<close> and loading the metadata raises, as
  it does for a missing file, resolution raises the same exception.
\<close>

theorem build_imagenet_labels_reconcile:
  assumes "load_synsets fs sp = Inr (Some synsets)" and "synsets \<noteq> []"
  shows "(m \<noteq> int (length synsets) \<and> m \<noteq> int (length synsets) + 1 \<longrightarrow>
            build_imagenet_labels fs sp mp m = Inr None)
         \<and> (m = int (length synsets) + 1 \<and> load_metadata fs mp = Inr md \<longrightarrow>
              (\<exists>labels. build_imagenet_labels fs sp mp m = Inr (Some labels)
                 \<and> length labels = length synsets + 1
                 \<and> labels = map (label_entry md) (''background'' # synsets)))
         \<and> (m = int (length synsets) \<and> load_metadata fs mp = Inr md \<longrightarrow>
              (\<exists>labels. build_imagenet_labels fs sp mp m = Inr (Some labels)
                 \<and> length labels = length synsets
                 \<and> labels = map (label_entry md) synsets))
         \<and> ((m = int (length synsets) \<or> m = int (length synsets) + 1)
              \<and> load_metadata fs mp = Inl e \<longrightarrow>
              build_imagenet_labels fs sp mp m = Inl e)"
proof -
  note b = build_imagenet_labels_loaded [OF assms, of mp m]
  have mismatch: "build_imagenet_labels fs sp mp m = Inr None"
    if "m \<noteq> int (length synsets) \<and> m \<noteq> int (length synsets) + 1"
    using that unfolding b by (simp add: reconcile_def)
  have plus1: "\<exists>labels. build_imagenet_labels fs sp mp m = Inr (Some labels)
                 \<and> length labels = length synsets + 1
                 \<and> labels = map (label_entry md) (''background'' # synsets)"
    if "m = int (length synsets) + 1 \<and> load_metadata fs mp = Inr md"
    using that unfolding b by (simp add: reconcile_def)
  have same: "\<exists>labels. build_imagenet_labels fs sp mp m = Inr (Some labels)
                 \<and> length labels = length synsets
                 \<and> labels = map (label_entry md) synsets"
    if "m = int (length synsets) \<and> load_metadata fs mp = Inr md"
    using that unfolding b by (simp add: reconcile_def)
  have raises: "build_imagenet_labels fs sp mp m = Inl e"
    if "(m = int (length synsets) \<or> m = int (length synsets) + 1)
        \<and> load_metadata fs mp = Inl e"
    using that unfolding b by (auto simp: reconcile_def)
  from mismatch plus1 same raises show ?thesis by blast
qed

text \<open>
  Claim C9, as amended. When resolution returns a label table, the table is index-aligned
  with the reconciled identifier list; the entry of an identifier is the identifier, one
  space and the mapped label when the mapping holds a label for it that differs from the
  identifier, and otherwise the identifier itself.
\<close>

theorem build_imagenet_labels_entries:
  assumes "load_synsets fs sp = Inr (Some synsets)"
    and "load_metadata fs mp = Inr md"
    and "build_imagenet_labels fs sp mp m = Inr (Some labels)"
  shows "length labels = length (reconcile synsets m)
         \<and> (\<forall>i < length labels.
              labels ! i =
                (case md (reconcile synsets m ! i) of
                   None \<Rightarrow> reconcile synsets m ! i
                 | Some l \<Rightarrow>
                     if l \<noteq> reconcile synsets m ! i
                     then reconcile synsets m ! i @ '' '' @ l
                     else reconcile synsets m ! i))"
proof -
  have ne: "synsets \<noteq> []"
    using assms by (auto simp: build_imagenet_labels_def)
  have "labels = map (label_entry md) (reconcile synsets m)"
    using assms(2,3) unfolding build_imagenet_labels_loaded [OF assms(1) ne]
    by (simp split: if_splits)
  then show ?thesis
    by (auto simp: label_entry_def split: option.splits)
qed


theorem build_imagenet_labels_reconcile_witness:
  "load_synsets [''synsets.txt'' \<mapsto> ''n01440764'' @ [CHR 0x0A] @ ''n01443537'' @ [CHR 0x0A]]
     ''synsets.txt'' = Inr (Some [''n01440764'', ''n01443537''])
   \<and> build_imagenet_labels
        [''synsets.txt'' \<mapsto> ''n01440764'' @ [CHR 0x0A] @ ''n01443537'' @ [CHR 0x0A]]
        ''synsets.txt'' [] 2 = Inr (Some [''n01440764'', ''n01443537''])
   \<and> build_imagenet_labels
        [''synsets.txt'' \<mapsto> ''n01440764'' @ [CHR 0x0A] @ ''n01443537'' @ [CHR 0x0A]]
        ''synsets.txt'' [] 3 = Inr (Some [''background'', ''n01440764'', ''n01443537''])
   \<and> build_imagenet_labels
        [''synsets.txt'' \<mapsto> ''n01440764'' @ [CHR 0x0A] @ ''n01443537'' @ [CHR 0x0A]]
        ''synsets.txt'' [] 1 = Inr None
   \<and> build_imagenet_labels
        [''synsets.txt'' \<mapsto> ''n01440764'' @ [CHR 0x0A] @ ''n01443537'' @ [CHR 0x0A]]
        ''synsets.txt'' ''metadata.txt'' 500 = Inr None
   \<and> build_imagenet_labels
        [''synsets.txt'' \<mapsto> ''n01440764'' @ [CHR 0x0A] @ ''n01443537'' @ [CHR 0x0A]]
        ''synsets.txt'' ''metadata.txt'' 3 = Inl FileNotFoundError"
proof -
  let ?fs = "[''synsets.txt'' \<mapsto> ''n01440764'' @ [CHR 0x0A] @ ''n01443537'' @ [CHR 0x0A]]"
  let ?synsets = "[''n01440764'', ''n01443537'']"
  have l: "load_synsets ?fs ''synsets.txt'' = Inr (Some ?synsets)"
    by code_simp
  have n: "?synsets \<noteq> []" by simp
  have md: "load_metadata ?fs [] = Inr Map.empty"
    by (simp add: load_metadata_def)
  have missing: "load_metadata ?fs ''metadata.txt'' = Inl FileNotFoundError"
    by (simp add: load_metadata_def read_lines_def py_open_def)
  have two: "build_imagenet_labels ?fs ''synsets.txt'' [] 2 = Inr (Some ?synsets)"
    using build_imagenet_labels_reconcile [OF l n, of 2 "[]" Map.empty] md
    by (simp add: label_entry_def)
  have three: "build_imagenet_labels ?fs ''synsets.txt'' [] 3 = Inr (Some (''background'' # ?synsets))"
    using build_imagenet_labels_reconcile [OF l n, of 3 "[]" Map.empty] md
    by (simp add: label_entry_def)
  have one: "build_imagenet_labels ?fs ''synsets.txt'' [] 1 = Inr None"
    using build_imagenet_labels_reconcile [OF l n, of 1 "[]" Map.empty] by simp
  have far: "build_imagenet_labels ?fs ''synsets.txt'' ''metadata.txt'' 500 = Inr None"
    using build_imagenet_labels_reconcile [OF l n, of 500 "''metadata.txt''" Map.empty] by simp
  have raised: "build_imagenet_labels ?fs ''synsets.txt'' ''metadata.txt'' 3 = Inl FileNotFoundError"
    using build_imagenet_labels_reconcile
      [OF l n, of 3 "''metadata.txt''" Map.empty FileNotFoundError] missing
    by simp
  from l two three one far raised show ?thesis by simp
qed

text \<open>
  Claim C6 as stated fails where the metadata file is missing: with a one-line class file
  and no file at the metadata path, resolution raises FileNotFoundError for output size 1,
  where the claim has the one label returned, and for output size 2, where the claim has
  two labels returned.
\<close>

theorem build_imagenet_labels_missing_metadata_counterexample:
  "load_synsets [''synsets.txt'' \<mapsto> ''n01440764'' @ [CHR 0x0A]] ''synsets.txt''
     = Inr (Some [''n01440764''])
   \<and> build_imagenet_labels [''synsets.txt'' \<mapsto> ''n01440764'' @ [CHR 0x0A]]
        ''synsets.txt'' ''metadata.txt'' 1 = Inl FileNotFoundError
   \<and> build_imagenet_labels [''synsets.txt'' \<mapsto> ''n01440764'' @ [CHR 0x0A]]
        ''synsets.txt'' ''metadata.txt'' 2 = Inl FileNotFoundError"
  by code_simp

theorem build_imagenet_labels_entries_witness:
  "build_imagenet_labels
     [''synsets.txt'' \<mapsto> ''n01751748'' @ [CHR 0x0A] @ ''n01440764'' @ [CHR 0x0A],
      ''metadata.txt'' \<mapsto> ''n01751748'' @ [CHR 0x09] @ ''sea snake'' @ [CHR 0x0A]]
     ''synsets.txt'' ''metadata.txt'' 3
     = Inr (Some [''background'', ''n01751748 sea snake'', ''n01440764''])
   \<and> [''background'', ''n01751748 sea snake'', ''n01440764''] ! 1 = ''n01751748'' @ '' '' @ ''sea snake''
   \<and> [''background'', ''n01751748 sea snake'', ''n01440764''] ! 2 = ''n01440764''"
proof -
  let ?fs = "[''synsets.txt'' \<mapsto> ''n01751748'' @ [CHR 0x0A] @ ''n01440764'' @ [CHR 0x0A],
      ''metadata.txt'' \<mapsto> ''n01751748'' @ [CHR 0x09] @ ''sea snake'' @ [CHR 0x0A]]"
  let ?labels = "[''background'', ''n01751748 sea snake'', ''n01440764'']"
  have l: "load_synsets ?fs ''synsets.txt'' = Inr (Some [''n01751748'', ''n01440764''])"
    by code_simp
  have m: "load_metadata ?fs ''metadata.txt'' = Inr [''n01751748'' \<mapsto> ''sea snake'']"
    by (simp add: load_metadata_def read_lines_def py_open_def metadata_line_def py_strip_def
        is_space_def py_partition_def)
  have b: "build_imagenet_labels ?fs ''synsets.txt'' ''metadata.txt'' 3 = Inr (Some ?labels)"
    by code_simp
  have r: "reconcile [''n01751748'', ''n01440764''] 3 = [''background'', ''n01751748'', ''n01440764'']"
    by (simp add: reconcile_def)
  have "\<forall>i < length ?labels.
          ?labels ! i =
            (case [''n01751748'' \<mapsto> ''sea snake''] ([''background'', ''n01751748'', ''n01440764''] ! i) of
               None \<Rightarrow> [''background'', ''n01751748'', ''n01440764''] ! i
             | Some l \<Rightarrow>
                 if l \<noteq> [''background'', ''n01751748'', ''n01440764''] ! i
                 then [''background'', ''n01751748'', ''n01440764''] ! i @ '' '' @ l
                 else [''background'', ''n01751748'', ''n01440764''] ! i)"
    using build_imagenet_labels_entries [OF l m b] unfolding r by blast
  then have "?labels ! 1 = ''n01751748'' @ '' '' @ ''sea snake''" and "?labels ! 2 = ''n01440764''"
    by simp_all
  with b show ?thesis by simp
qed

text \<open>
  Claim C9 as stated fails: for the identifier n01751748 mapped to "sea snake" the final
  entry is "n01751748 sea snake", not the mapped label "sea snake".
\<close>

theorem build_imagenet_labels_entries_counterexample:
  "(case load_metadata
      [''synsets.txt'' \<mapsto> ''n01751748'' @ [CHR 0x0A],
       ''metadata.txt'' \<mapsto> ''n01751748'' @ [CHR 0x09] @ ''sea snake'' @ [CHR 0x0A]]
      ''metadata.txt'' of Inl e \<Rightarrow> None | Inr md \<Rightarrow> md ''n01751748'') = Some ''sea snake''
   \<and> build_imagenet_labels
      [''synsets.txt'' \<mapsto> ''n01751748'' @ [CHR 0x0A],
       ''metadata.txt'' \<mapsto> ''n01751748'' @ [CHR 0x09] @ ''sea snake'' @ [CHR 0x0A]]
      ''synsets.txt'' ''metadata.txt'' 1 = Inr (Some [''n01751748 sea snake''])
   \<and> build_imagenet_labels
      [''synsets.txt'' \<mapsto> ''n01751748'' @ [CHR 0x0A],
       ''metadata.txt'' \<mapsto> ''n01751748'' @ [CHR 0x09] @ ''sea snake'' @ [CHR 0x0A]]
      ''synsets.txt'' ''metadata.txt'' 1 \<noteq> Inr (Some [''sea snake''])"
  by code_simp

section \<open>Properties of preprocessing selection\<close>

lemma py_round_nearest: "\<bar>of_int (py_round q) - q\<bar> \<le> 1 / 2"
  unfolding py_round_def Let_def
  by (auto simp: abs_if; linarith)

lemma py_round_of_int: "py_round (of_int n) = n"
  by (simp add: py_round_def)

lemma py_round_unique:
  assumes "of_int a - 1 / 2 < x" and "x < of_int a + 1 / 2"
  shows "py_round x = a"
proof (cases "of_int a \<le> x")
  case True
  with assms have fl: "\<lfloor>x\<rfloor> = a" by (intro floor_unique) auto
  with assms show ?thesis by (simp add: py_round_def Let_def)
next
  case False
  with assms have fl: "\<lfloor>x\<rfloor> = a - 1" by (intro floor_unique) auto
  have "1 / 2 < x - of_int (a - 1)" using assms by simp
  then have "\<not> x - of_int (a - 1) < 1 / 2" by simp
  with \<open>1 / 2 < x - of_int (a - 1)\<close> show ?thesis
    unfolding py_round_def Let_def fl by simp
qed

lemma py_round_near_sevenths:
  fixes k r :: int and x :: rat
  assumes "0 \<le> r" and "r < 7" and "\<bar>x - (of_int k + of_int r / 7)\<bar> \<le> 1 / 16"
  shows "py_round x = (if r \<le> 3 then k else k + 1)"
proof (cases "r \<le> 3")
  case True
  then have "(of_int r :: rat) \<le> 3" by (metis of_int_le_iff of_int_numeral)
  moreover have "(0 :: rat) \<le> of_int r" using assms(1) by simp
  ultimately have "of_int k - 1 / 2 < x" and "x < of_int k + 1 / 2"
    using assms(3) by (auto simp: abs_if split: if_splits)
  then have "py_round x = k" by (rule py_round_unique)
  with True show ?thesis by simp
next
  case False
  then have "4 \<le> r" by simp
  then have "(4 :: rat) \<le> of_int r" by (metis of_int_le_iff of_int_numeral)
  moreover have "(of_int r :: rat) < 7" using assms(2) by (metis of_int_less_iff of_int_numeral)
  ultimately have "of_int (k + 1) - 1 / 2 < x" and "x < of_int (k + 1) + 1 / 2"
    using assms(3) by (auto simp: abs_if split: if_splits)
  then have "py_round x = k + 1" by (rule py_round_unique)
  with False show ?thesis by simp
qed

lemma ilog2_bounds: "1 \<le> n \<Longrightarrow> 2 ^ ilog2 n \<le> n \<and> n < 2 ^ Suc (ilog2 n)"
proof (induction n rule: ilog2.induct)
  case (1 n)
  show ?case
  proof (cases "n < 2")
    case True
    with "1.prems" show ?thesis by (simp add: ilog2.simps [of n])
  next
    case False
    then have "1 \<le> n div 2" by simp
    with "1.IH" False have ih: "2 ^ ilog2 (n div 2) \<le> n div 2" "n div 2 < 2 ^ Suc (ilog2 (n div 2))"
      by simp_all
    have s: "ilog2 n = Suc (ilog2 (n div 2))" using False by (simp add: ilog2.simps [of n])
    have "2 * 2 ^ ilog2 (n div 2) \<le> 2 * (n div 2)" using ih(1) by simp
    also have "\<dots> \<le> n" by simp
    finally have lo: "2 ^ ilog2 n \<le> n" unfolding s by simp
    have "n div 2 + 1 \<le> 2 ^ Suc (ilog2 (n div 2))" using ih(2) by simp
    then have "2 * (n div 2) + 2 \<le> 2 * 2 ^ Suc (ilog2 (n div 2))" by simp
    moreover have "n < 2 * (n div 2) + 2" by simp
    ultimately have hi: "n < 2 ^ Suc (ilog2 n)" unfolding s by simp
    from lo hi show ?thesis by simp
  qed
qed

lemma ilog2_less:
  assumes "1 \<le> n" and "n < 2 ^ k"
  shows "ilog2 n < k"
proof -
  have "(2 :: int) ^ ilog2 n \<le> n" using ilog2_bounds [OF assms(1)] by simp
  then have "(2 :: int) ^ ilog2 n < 2 ^ k" using assms(2) by (rule le_less_trans)
  then show ?thesis by (rule power_less_imp_less_exp [rotated]) simp
qed

lemma pow2_pos: "0 < pow2 e"
  by (simp add: pow2_def)

lemma pow2_small: "e \<le> - 3 \<Longrightarrow> pow2 e \<le> 1 / 8"
proof -
  assume a: "e \<le> - 3"
  then have "3 \<le> nat (- e)" by simp
  then have "(2 :: rat) ^ 3 \<le> 2 ^ nat (- e)" by (intro power_increasing) simp_all
  then have "1 / (2 :: rat) ^ nat (- e) \<le> 1 / 2 ^ 3"
    by (intro divide_left_mono) simp_all
  with a show ?thesis by (simp add: pow2_def)
qed

lemma round_double_error:
  "\<bar>round_double q - q\<bar> \<le> pow2 (int (ilog2 \<lfloor>q\<rfloor>) - 52) / 2"
proof -
  define u where "u = pow2 (int (ilog2 \<lfloor>q\<rfloor>) - 52)"
  have u: "0 < u" by (simp add: u_def pow2_pos)
  have "\<bar>of_int (py_round (q / u)) - q / u\<bar> \<le> 1 / 2" by (rule py_round_nearest)
  then have "\<bar>of_int (py_round (q / u)) - q / u\<bar> * u \<le> 1 / 2 * u"
    using u by (intro mult_right_mono) simp_all
  moreover have "\<bar>of_int (py_round (q / u)) - q / u\<bar> * u = \<bar>of_int (py_round (q / u)) * u - q\<bar>"
  proof -
    have "\<bar>of_int (py_round (q / u)) - q / u\<bar> * u = \<bar>(of_int (py_round (q / u)) - q / u) * u\<bar>"
      using u by (simp add: abs_mult)
    also have "(of_int (py_round (q / u)) - q / u) * u = of_int (py_round (q / u)) * u - q"
      using u by (simp add: left_diff_distrib)
    finally show ?thesis .
  qed
  ultimately show ?thesis
    by (simp add: round_double_def Let_def u_def)
qed

lemma round_double_exact_int:
  assumes "1 \<le> c" and "c < 2 ^ 53"
  shows "round_double (of_int c) = of_int c"
proof -
  define e where "e = ilog2 c"
  have e: "e < 53" unfolding e_def using assms by (rule ilog2_less)
  define s where "s = 52 - e"
  have p: "pow2 (int e - 52) = 1 / 2 ^ s"
  proof (cases "e = 52")
    case True
    then show ?thesis by (simp add: pow2_def s_def)
  next
    case False
    with e have "e < 52" by simp
    then have "nat (52 - int e) = 52 - e" by simp
    with \<open>e < 52\<close> show ?thesis by (simp add: pow2_def s_def)
  qed
  have "(of_int c :: rat) / (1 / 2 ^ s) = of_int (c * 2 ^ s)" by simp
  then have "py_round ((of_int c :: rat) / (1 / 2 ^ s)) = c * 2 ^ s"
    by (simp only: py_round_of_int)
  then show ?thesis
    by (simp add: round_double_def Let_def e_def [symmetric] p)
qed


lemma sevenths_split:
  fixes c :: int
  obtains k r :: int where "0 \<le> r" and "r < 7" and "8 * c = 7 * k + r"
    and "(of_int c :: rat) / (875 / 1000) = of_int k + of_int r / 7"
    and "(16 * c + 7) div 14 = (if r \<le> 3 then k else k + 1)"
proof -
  define k where "k = (8 * c) div 7"
  define r where "r = (8 * c) mod 7"
  have r: "0 \<le> r" "r < 7" by (simp_all add: r_def)
  have a: "8 * c = 7 * k + r" by (simp add: k_def r_def)
  have "(of_int c :: rat) / (875 / 1000) = of_int (8 * c) / 7" by simp
  also have "\<dots> = of_int (7 * k + r) / 7" by (simp only: a)
  also have "\<dots> = of_int k + of_int r / 7" by (simp add: add_divide_distrib)
  finally have q: "(of_int c :: rat) / (875 / 1000) = of_int k + of_int r / 7" .
  have d: "(16 * c + 7) div 14 = (if r \<le> 3 then k else k + 1)"
  proof -
    have "16 * c + 7 = 14 * k + (2 * r + 7)" using a by simp
    then have "(16 * c + 7) div 14 = k + (2 * r + 7) div 14"
      by (simp add: div_mult_self4 add.commute)
    moreover have "(2 * r + 7) div 14 = (if r \<le> 3 then 0 else 1)"
      using r by auto
    ultimately show ?thesis by simp
  qed
  from r a q d show ?thesis by (rule that)
qed

lemma nearest_of_sevenths:
  "\<bar>of_int ((16 * c + 7) div 14) - of_int c / (875 / 1000)\<bar> < (1 / 2 :: rat)"
proof -
  obtain k r :: int where r: "0 \<le> r" "r < 7"
    and q: "(of_int c :: rat) / (875 / 1000) = of_int k + of_int r / 7"
    and d: "(16 * c + 7) div 14 = (if r \<le> 3 then k else k + 1)"
    by (rule sevenths_split)
  show ?thesis
  proof (cases "r \<le> 3")
    case True
    then have "(of_int r :: rat) \<le> 3" by (metis of_int_le_iff of_int_numeral)
    moreover have "(0 :: rat) \<le> of_int r" using r by simp
    ultimately have "\<bar>of_int k - (of_int k + of_int r / 7)\<bar> < (1 / 2 :: rat)"
      by (simp add: abs_if)
    moreover have "(16 * c + 7) div 14 = k" using d True by simp
    ultimately show ?thesis by (simp only: q)
  next
    case False
    then have "4 \<le> r" by simp
    then have "(4 :: rat) \<le> of_int r" by (metis of_int_le_iff of_int_numeral)
    moreover have "(of_int r :: rat) < 7" using r by (metis of_int_less_iff of_int_numeral)
    ultimately have "\<bar>of_int (k + 1) - (of_int k + of_int r / 7)\<bar> < (1 / 2 :: rat)"
      by (simp add: abs_if)
    moreover have "(16 * c + 7) div 14 = k + 1" using d False by simp
    ultimately show ?thesis by (simp only: q)
  qed
qed

lemma round_div_float_bounded:
  assumes "1 \<le> c" and "c < 7 * 2 ^ 47"
  shows "round_div_float c (875 / 1000) = Inr ((16 * c + 7) div 14)"
proof -
  obtain k r :: int where r: "0 \<le> r" "r < 7"
    and q: "(of_int c :: rat) / (875 / 1000) = of_int k + of_int r / 7"
    and d: "(16 * c + 7) div 14 = (if r \<le> 3 then k else k + 1)"
    by (rule sevenths_split)
  let ?q = "(of_int c :: rat) / (875 / 1000)"
  have c53: "c < 2 ^ 53" using assms(2) by simp
  have fc: "round_double (of_int c) = of_int c"
    using assms(1) c53 by (rule round_double_exact_int)
  have crat: "(of_int c :: rat) < 7 * 2 ^ 47"
    using assms(2) by (metis of_int_less_iff of_int_mult of_int_numeral of_int_power)
  have c1: "(1 :: rat) \<le> of_int c" using assms(1) by simp
  have qlo: "1 \<le> ?q" using c1 by simp
  have qhi: "?q < 2 ^ 50" using crat by simp
  have fl1: "1 \<le> \<lfloor>?q\<rfloor>" using qlo by (simp add: le_floor_iff)
  have "of_int \<lfloor>?q\<rfloor> \<le> ?q" by (rule of_int_floor_le)
  then have "(of_int \<lfloor>?q\<rfloor> :: rat) < 2 ^ 50" using qhi by (rule le_less_trans)
  then have fl2: "\<lfloor>?q\<rfloor> < 2 ^ 50"
    by (metis of_int_less_iff of_int_numeral of_int_power)
  have "ilog2 \<lfloor>?q\<rfloor> < 50" using fl1 fl2 by (rule ilog2_less)
  then have "int (ilog2 \<lfloor>?q\<rfloor>) - 52 \<le> - 3" by simp
  then have "pow2 (int (ilog2 \<lfloor>?q\<rfloor>) - 52) \<le> 1 / 8" by (rule pow2_small)
  with round_double_error [of ?q] have err: "\<bar>round_double ?q - ?q\<bar> \<le> 1 / 16"
    by simp
  have "py_round (round_double ?q) = (if r \<le> 3 then k else k + 1)"
    using r err unfolding q by (rule py_round_near_sevenths)
  then have res: "py_round (round_double ?q) = (16 * c + 7) div 14"
    using d by simp
  have "round_double ?q \<le> ?q + 1 / 16" using err by (simp add: abs_if split: if_splits)
  with qhi have "round_double ?q < 2 ^ 50 + 1" by simp
  also have "\<dots> \<le> (2 :: rat) ^ 1024" by simp
  finally have noinf: "\<not> 2 ^ 1024 \<le> round_double ?q" by simp
  have "(of_int c :: rat) < 2 ^ 1024"
  proof -
    have "(7 * 2 ^ 47 :: rat) \<le> 2 ^ 1024" by simp
    with crat show ?thesis by (rule less_le_trans)
  qed
  then have nobig: "\<not> (2 :: rat) ^ 1024 \<le> of_int c" by simp
  show ?thesis
    unfolding round_div_float_def Let_def fc using nobig noinf res by simp
qed


lemma pick_preprocess_config_fallback:
  assumes "\<not> contains ''efficientnet_v2_s'' (lower (basename model_path))"
    and "\<not> contains ''efficientnet_v2_m'' (lower (basename model_path))"
    and "\<not> contains ''efficientnet_v2_l'' (lower (basename model_path))"
    and "\<not> contains ''efficientnet_b'' (lower (basename model_path))"
  shows "pick_preprocess_config model_path h w =
           (case round_div_float (max (if h > 0 then h else 224) (if w > 0 then w else 224))
                   (875 / 1000) of
              Inl e \<Rightarrow> Inl e
            | Inr resize \<Rightarrow>
                Inr \<lparr>resize_size = resize,
                     crop_height = (if h > 0 then h else 224),
                     crop_width = (if w > 0 then w else 224),
                     mean = imagenet_mean, std = imagenet_std, resample = BILINEAR\<rparr>)"
  using assms by (simp add: pick_preprocess_config_def Let_def)

text \<open>
  Claim C8, as amended. When the lower-cased base name of the model path contains none of
  the four family patterns and the inferred height and width are both below
  \<open>7 * 2 ^ 47\<close>, the function returns a config with: crop height and width equal to the
  inferred height and width, each replaced by 224 when it is not positive; a resize size
  that is the integer nearest to the larger crop side divided by 0.875 (the exact quotient
  is never halfway between two integers, and the result is \<open>(16 * c + 7) div 14\<close> for the
  larger side \<open>c\<close>); mean [0.485, 0.456, 0.406] and std [0.229, 0.224, 0.225]; bilinear
  resampling. Below the bound the rounding of the double quotient cannot move it across a
  half-integer.
\<close>

theorem pick_preprocess_config_generic:
  assumes "\<not> contains ''efficientnet_v2_s'' (lower (basename model_path))"
    and "\<not> contains ''efficientnet_v2_m'' (lower (basename model_path))"
    and "\<not> contains ''efficientnet_v2_l'' (lower (basename model_path))"
    and "\<not> contains ''efficientnet_b'' (lower (basename model_path))"
    and "h < 7 * 2 ^ 47" and "w < 7 * 2 ^ 47"
  shows "\<exists>cfg. pick_preprocess_config model_path h w = Inr cfg
           \<and> crop_height cfg = (if h > 0 then h else 224)
           \<and> crop_width cfg = (if w > 0 then w else 224)
           \<and> \<bar>of_int (resize_size cfg)
                 - of_int (max (crop_height cfg) (crop_width cfg)) / (875 / 1000)\<bar>
               < (1 / 2 :: rat)
           \<and> resize_size cfg = (16 * max (crop_height cfg) (crop_width cfg) + 7) div 14
           \<and> mean cfg = [485 / 1000, 456 / 1000, 406 / 1000]
           \<and> std cfg = [229 / 1000, 224 / 1000, 225 / 1000]
           \<and> resample cfg = BILINEAR"
proof -
  let ?ch = "if h > 0 then h else 224"
  let ?cw = "if w > 0 then w else 224"
  let ?c = "max ?ch ?cw"
  let ?cfg = "\<lparr>resize_size = (16 * ?c + 7) div 14, crop_height = ?ch, crop_width = ?cw,
               mean = imagenet_mean, std = imagenet_std, resample = BILINEAR\<rparr>"
  have lo: "1 \<le> ?c" by (auto simp: max_def)
  have hi: "?c < 7 * 2 ^ 47" using assms(5,6) by (auto simp: max_def)
  have rd: "round_div_float ?c (875 / 1000) = Inr ((16 * ?c + 7) div 14)"
    using lo hi by (rule round_div_float_bounded)
  have cfg: "pick_preprocess_config model_path h w = Inr ?cfg"
    unfolding pick_preprocess_config_fallback [OF assms(1-4)] rd by simp
  have near: "\<bar>of_int (resize_size ?cfg)
               - of_int (max (crop_height ?cfg) (crop_width ?cfg)) / (875 / 1000)\<bar>
             < (1 / 2 :: rat)"
    using nearest_of_sevenths [of ?c] by simp
  have rest: "crop_height ?cfg = ?ch \<and> crop_width ?cfg = ?cw
              \<and> resize_size ?cfg = (16 * max (crop_height ?cfg) (crop_width ?cfg) + 7) div 14
              \<and> mean ?cfg = [485 / 1000, 456 / 1000, 406 / 1000]
              \<and> std ?cfg = [229 / 1000, 224 / 1000, 225 / 1000]
              \<and> resample ?cfg = BILINEAR"
    by (simp add: imagenet_mean_def imagenet_std_def)
  from cfg near rest show ?thesis by blast
qed

theorem pick_preprocess_config_generic_witness:
  "\<not> contains ''efficientnet_v2_s'' (lower (basename ''/models/MobileNet_V2.tflite''))
   \<and> \<not> contains ''efficientnet_v2_m'' (lower (basename ''/models/MobileNet_V2.tflite''))
   \<and> \<not> contains ''efficientnet_v2_l'' (lower (basename ''/models/MobileNet_V2.tflite''))
   \<and> \<not> contains ''efficientnet_b'' (lower (basename ''/models/MobileNet_V2.tflite''))
   \<and> pick_preprocess_config ''/models/MobileNet_V2.tflite'' 224 0
       = Inr \<lparr>resize_size = 256, crop_height = 224, crop_width = 224,
               mean = [485 / 1000, 456 / 1000, 406 / 1000],
               std = [229 / 1000, 224 / 1000, 225 / 1000], resample = BILINEAR\<rparr>
   \<and> pick_preprocess_config ''/models/MobileNet_V2.tflite'' 224 320
       = Inr \<lparr>resize_size = 366, crop_height = 224, crop_width = 320,
               mean = [485 / 1000, 456 / 1000, 406 / 1000],
               std = [229 / 1000, 224 / 1000, 225 / 1000], resample = BILINEAR\<rparr>"
proof -
  let ?p = "''/models/MobileNet_V2.tflite''"
  have n: "lower (basename ?p) = ''mobilenet_v2.tflite''"
    by code_simp
  have a: "\<not> contains ''efficientnet_v2_s'' (lower (basename ?p))"
    unfolding n by code_simp
  have b: "\<not> contains ''efficientnet_v2_m'' (lower (basename ?p))"
    unfolding n by code_simp
  have c: "\<not> contains ''efficientnet_v2_l'' (lower (basename ?p))"
    unfolding n by code_simp
  have d: "\<not> contains ''efficientnet_b'' (lower (basename ?p))"
    unfolding n by code_simp
  have b1: "(224 :: int) < 7 * 2 ^ 47" and b2: "(0 :: int) < 7 * 2 ^ 47"
    and b3: "(320 :: int) < 7 * 2 ^ 47"
    by simp_all
  obtain cfg1 where c1: "pick_preprocess_config ?p 224 0 = Inr cfg1"
      "crop_height cfg1 = 224" "crop_width cfg1 = 224"
      "resize_size cfg1 = (16 * max (crop_height cfg1) (crop_width cfg1) + 7) div 14"
      "mean cfg1 = [485 / 1000, 456 / 1000, 406 / 1000]"
      "std cfg1 = [229 / 1000, 224 / 1000, 225 / 1000]" "resample cfg1 = BILINEAR"
    using pick_preprocess_config_generic [OF a b c d b1 b2] by auto
  obtain cfg2 where c2: "pick_preprocess_config ?p 224 320 = Inr cfg2"
      "crop_height cfg2 = 224" "crop_width cfg2 = 320"
      "resize_size cfg2 = (16 * max (crop_height cfg2) (crop_width cfg2) + 7) div 14"
      "mean cfg2 = [485 / 1000, 456 / 1000, 406 / 1000]"
      "std cfg2 = [229 / 1000, 224 / 1000, 225 / 1000]" "resample cfg2 = BILINEAR"
    using pick_preprocess_config_generic [OF a b c d b1 b3] by auto
  have e1: "cfg1 = \<lparr>resize_size = 256, crop_height = 224, crop_width = 224,
               mean = [485 / 1000, 456 / 1000, 406 / 1000],
               std = [229 / 1000, 224 / 1000, 225 / 1000], resample = BILINEAR\<rparr>"
    using c1 by (cases cfg1) simp
  have e2: "cfg2 = \<lparr>resize_size = 366, crop_height = 224, crop_width = 320,
               mean = [485 / 1000, 456 / 1000, 406 / 1000],
               std = [229 / 1000, 224 / 1000, 225 / 1000], resample = BILINEAR\<rparr>"
    using c2 by (cases cfg2) simp
  from a b c d c1(1) c2(1) e1 e2 show ?thesis by simp
qed

lemma round_div_float_at_7_2_50_1:
  "round_div_float (7 * 2 ^ 50 + 1) (875 / 1000) = Inr 9007199254740994"
proof -
  have fc: "round_double (of_int (7 * 2 ^ 50 + 1)) = (of_int (7 * 2 ^ 50 + 1) :: rat)"
    by (rule round_double_exact_int) simp_all
  have q: "round_double (of_int (7 * 2 ^ 50 + 1) / (875 / 1000)) = 9007199254740994"
    by code_simp
  have r: "py_round 9007199254740994 = 9007199254740994"
    using py_round_of_int [of 9007199254740994] by simp
  have s1: "\<not> (2 :: rat) ^ 1024 \<le> of_int (7 * 2 ^ 50 + 1)" by simp
  have s2: "\<not> (2 :: rat) ^ 1024 \<le> 9007199254740994" by simp
  show ?thesis
    unfolding round_div_float_def Let_def fc q using s1 s2 r by simp
qed

text \<open>
  Claim C8 as stated fails for large sizes and is silent on which side is divided. The
  quotient is a double: for the inferred size \<open>7 * 2 ^ 50 + 1\<close> (both sides) the resize
  size is 9007199254740994, while the integer nearest to the exact quotient is
  9007199254740993. For the inferred sizes (224, 320) and (320, 224) the resize size is
  366 both times: it comes from the larger side 320, not from the height and not from the
  width (224 / 0.875 is 256).
\<close>

theorem pick_preprocess_config_float_counterexample:
  "pick_preprocess_config ''mobilenet_v2.tflite'' (7 * 2 ^ 50 + 1) (7 * 2 ^ 50 + 1)
     = Inr \<lparr>resize_size = 9007199254740994,
             crop_height = 7 * 2 ^ 50 + 1, crop_width = 7 * 2 ^ 50 + 1,
             mean = [485 / 1000, 456 / 1000, 406 / 1000],
             std = [229 / 1000, 224 / 1000, 225 / 1000], resample = BILINEAR\<rparr>
   \<and> \<bar>9007199254740993 - of_int (7 * 2 ^ 50 + 1) / (875 / 1000)\<bar> < (1 / 2 :: rat)
   \<and> (1 / 2 :: rat) < \<bar>9007199254740994 - of_int (7 * 2 ^ 50 + 1) / (875 / 1000)\<bar>
   \<and> pick_preprocess_config ''mobilenet_v2.tflite'' 224 320
     = Inr \<lparr>resize_size = 366, crop_height = 224, crop_width = 320,
             mean = [485 / 1000, 456 / 1000, 406 / 1000],
             std = [229 / 1000, 224 / 1000, 225 / 1000], resample = BILINEAR\<rparr>
   \<and> pick_preprocess_config ''mobilenet_v2.tflite'' 320 224
     = Inr \<lparr>resize_size = 366, crop_height = 320, crop_width = 224,
             mean = [485 / 1000, 456 / 1000, 406 / 1000],
             std = [229 / 1000, 224 / 1000, 225 / 1000], resample = BILINEAR\<rparr>
   \<and> (224 :: rat) / (875 / 1000) = 256"
proof -
  let ?p = "''mobilenet_v2.tflite''"
  have n: "lower (basename ?p) = ''mobilenet_v2.tflite''"
    by code_simp
  have a: "\<not> contains ''efficientnet_v2_s'' (lower (basename ?p))"
    unfolding n by code_simp
  have b: "\<not> contains ''efficientnet_v2_m'' (lower (basename ?p))"
    unfolding n by code_simp
  have c: "\<not> contains ''efficientnet_v2_l'' (lower (basename ?p))"
    unfolding n by code_simp
  have d: "\<not> contains ''efficientnet_b'' (lower (basename ?p))"
    unfolding n by code_simp
  note f = pick_preprocess_config_fallback [OF a b c d]
  have r320: "round_div_float 320 (875 / 1000) = Inr 366"
    using round_div_float_bounded [of 320] by simp
  have big: "pick_preprocess_config ?p (7 * 2 ^ 50 + 1) (7 * 2 ^ 50 + 1)
     = Inr \<lparr>resize_size = 9007199254740994,
             crop_height = 7 * 2 ^ 50 + 1, crop_width = 7 * 2 ^ 50 + 1,
             mean = [485 / 1000, 456 / 1000, 406 / 1000],
             std = [229 / 1000, 224 / 1000, 225 / 1000], resample = BILINEAR\<rparr>"
    unfolding f using round_div_float_at_7_2_50_1
    by (simp add: imagenet_mean_def imagenet_std_def)
  have tall: "pick_preprocess_config ?p 224 320
     = Inr \<lparr>resize_size = 366, crop_height = 224, crop_width = 320,
             mean = [485 / 1000, 456 / 1000, 406 / 1000],
             std = [229 / 1000, 224 / 1000, 225 / 1000], resample = BILINEAR\<rparr>"
    unfolding f using r320 by (simp add: imagenet_mean_def imagenet_std_def)
  have wide: "pick_preprocess_config ?p 320 224
     = Inr \<lparr>resize_size = 366, crop_height = 320, crop_width = 224,
             mean = [485 / 1000, 456 / 1000, 406 / 1000],
             std = [229 / 1000, 224 / 1000, 225 / 1000], resample = BILINEAR\<rparr>"
    unfolding f using r320 by (simp add: imagenet_mean_def imagenet_std_def)
  have e1: "\<bar>9007199254740993 - of_int (7 * 2 ^ 50 + 1) / (875 / 1000)\<bar> < (1 / 2 :: rat)"
    by simp
  have e2: "(1 / 2 :: rat) < \<bar>9007199254740994 - of_int (7 * 2 ^ 50 + 1) / (875 / 1000)\<bar>"
    by simp
  have e3: "(224 :: rat) / (875 / 1000) = 256" by simp
  from big e1 e2 tall wide e3 show ?thesis by blast
qed

section \<open>Properties of top-k reporting\<close>

lemma argmax_scan_bound:
  "best < i \<Longrightarrow> argmax_scan best bv i xs < i + length xs"
proof (induction xs arbitrary: best bv i)
  case Nil
  then show ?case by simp
next
  case (Cons x xs)
  have a: "argmax_scan i x (Suc i) xs < Suc i + length xs"
    by (rule Cons.IH) simp
  have b: "argmax_scan best bv (Suc i) xs < Suc i + length xs"
    by (rule Cons.IH) (use Cons.prems in simp)
  from a b show ?case by simp
qed

lemma argmax_in_range:
  "flat \<noteq> [] \<Longrightarrow> \<exists>i. argmax flat = Inr i \<and> i < length flat"
proof (cases flat)
  case Nil
  assume "flat \<noteq> []"
  with Nil show ?thesis by simp
next
  case (Cons x xs)
  have "argmax_scan 0 x 1 xs < 1 + length xs"
    by (rule argmax_scan_bound) simp
  with Cons show ?thesis by (simp add: argmax_def)
qed

lemma set_argsort: "set (argsort flat) = {0..<length flat}"
  by (simp add: argsort_def)

lemma length_argsort: "length (argsort flat) = length flat"
  by (simp add: argsort_def)

lemma set_py_slice_from: "set (py_slice_from xs start) \<subseteq> set xs"
  by (simp add: py_slice_from_def Let_def set_drop_subset)

lemma length_py_slice_last:
  assumes "1 \<le> k" and "k \<le> int (length xs)"
  shows "length (py_slice_from xs (- k)) = nat k"
  using assms by (simp add: py_slice_from_def Let_def max_def)

lemma topk_indices_in_range:
  "\<exists>indices. topk_indices flat top_k = Inr indices
     \<and> (\<forall>idx \<in> set indices. idx < length flat)
     \<and> length indices \<le> length flat
     \<and> (1 \<le> top_k \<longrightarrow> length indices = nat (min top_k (int (length flat))))"
proof (cases "min top_k (int (length flat)) = 1")
  case True
  then have "flat \<noteq> []" by auto
  then obtain i where i: "argmax flat = Inr i" "i < length flat"
    using argmax_in_range by blast
  with True show ?thesis
    by (auto simp: topk_indices_def Let_def)
next
  case False
  let ?k = "min top_k (int (length flat))"
  let ?ix = "rev (py_slice_from (argsort flat) (- ?k))"
  have eq: "topk_indices flat top_k = Inr ?ix"
    using False by (simp add: topk_indices_def Let_def)
  have rng: "\<forall>idx \<in> set ?ix. idx < length flat"
    using set_py_slice_from [of "argsort flat" "- ?k"] by (auto simp: set_argsort)
  have len: "length ?ix \<le> length flat"
    by (simp add: py_slice_from_def Let_def length_argsort)
  have cnt: "length ?ix = nat ?k" if "1 \<le> top_k"
  proof (cases "flat = []")
    case True
    with len show ?thesis by simp
  next
    case nonempty: False
    then have "1 \<le> ?k" using that by (cases flat) auto
    moreover have "?k \<le> int (length (argsort flat))" by (simp add: length_argsort)
    ultimately have "length (py_slice_from (argsort flat) (- ?k)) = nat ?k"
      by (rule length_py_slice_last)
    then show ?thesis by simp
  qed
  from eq rng len cnt show ?thesis by blast
qed

lemma topk_label_total:
  "topk_label labels idx =
     Inr (case labels of
            None \<Rightarrow> ''class_'' @ str_nat idx
          | Some ls \<Rightarrow> if idx < length ls then ls ! idx else ''class_'' @ str_nat idx)"
  by (auto simp: topk_label_def py_getitem_def split: option.splits)

lemma topk_lines_total:
  "\<forall>idx \<in> set indices. idx < length flat \<Longrightarrow>
   topk_lines flat labels rank indices =
     Inr (map (\<lambda>(r, idx).
                (r,
                 (case labels of
                    None \<Rightarrow> ''class_'' @ str_nat idx
                  | Some ls \<Rightarrow> if idx < length ls then ls ! idx else ''class_'' @ str_nat idx),
                 flat ! idx))
              (zip [rank..<rank + length indices] indices))"
proof (induction indices arbitrary: rank)
  case Nil
  then show ?case by simp
next
  case (Cons idx rest)
  have u: "[rank..<rank + length (idx # rest)] = rank # [Suc rank..<Suc rank + length rest]"
    by (subst upt_rec) simp
  from Cons show ?case
    unfolding u by (simp add: topk_label_total py_getitem_def)
qed

text \<open>
  Claim C10. For every score vector, label table (absent or a list) and requested
  \<open>top_k\<close>, \<^verbatim>\<open>_print_topk\<close> raises nothing. The indices it reports are positions of
  the score vector, at most as many as the vector is long, and exactly
  \<open>min top_k (length flat)\<close> of them when \<open>top_k\<close> is at least 1. Each line carries the
  rank, the score at the index, and as label the table's entry at the index when the table
  is present and the index is below its length, and \<^verbatim>\<open>class_<index>\<close> otherwise: the
  table is never read out of range.
\<close>

theorem print_topk_in_range:
  "\<exists>indices.
     topk_indices flat top_k = Inr indices
     \<and> (\<forall>idx \<in> set indices. idx < length flat)
     \<and> length indices \<le> length flat
     \<and> (1 \<le> top_k \<longrightarrow> length indices = nat (min top_k (int (length flat))))
     \<and> print_topk flat labels top_k =
         Inr (map (\<lambda>(rank, idx).
                    (rank,
                     (case labels of
                        None \<Rightarrow> ''class_'' @ str_nat idx
                      | Some ls \<Rightarrow>
                          if idx < length ls then ls ! idx else ''class_'' @ str_nat idx),
                     flat ! idx))
                  (zip [1..<1 + length indices] indices))"
proof -
  obtain indices where i: "topk_indices flat top_k = Inr indices"
      "\<forall>idx \<in> set indices. idx < length flat"
      "length indices \<le> length flat"
      "1 \<le> top_k \<longrightarrow> length indices = nat (min top_k (int (length flat)))"
    using topk_indices_in_range by blast
  have "print_topk flat labels top_k = topk_lines flat labels 1 indices"
    using i(1) by (simp add: print_topk_def)
  also note topk_lines_total [OF i(2), of labels 1]
  finally show ?thesis using i by blast
qed

theorem print_topk_in_range_witness:
  "topk_indices [1 / 10, 7 / 10, 2 / 10 :: rat] 5 = Inr [1, 2, 0]
   \<and> print_topk [1 / 10, 7 / 10, 2 / 10 :: rat] (Some [''tench'', ''goldfish'']) 5
       = Inr [(1, ''goldfish'', 7 / 10), (2, ''class_2'', 2 / 10), (3, ''tench'', 1 / 10)]
   \<and> print_topk [1 / 10, 7 / 10, 2 / 10 :: rat] None 1 = Inr [(1, ''class_1'', 7 / 10)]"
proof -
  let ?flat = "[1 / 10, 7 / 10, 2 / 10 :: rat]"
  have a: "topk_indices ?flat 5 = Inr [1, 2, 0]" by code_simp
  have b: "topk_indices ?flat 1 = Inr [1]" by code_simp
  have s1: "str_nat (Suc 0) = ''1''" by code_simp
  have s2: "str_nat 2 = ''2''" by code_simp
  have u: "[1..<1 + length [1, 2, 0 :: nat]] = [1, 2, 3]" by code_simp
  have c: "print_topk ?flat (Some [''tench'', ''goldfish'']) 5
       = Inr [(1, ''goldfish'', 7 / 10), (2, ''class_2'', 2 / 10), (3, ''tench'', 1 / 10)]"
    using print_topk_in_range [of ?flat 5 "Some [''tench'', ''goldfish'']"]
    unfolding a by (auto simp: u s2)
  have d: "print_topk ?flat None 1 = Inr [(1, ''class_1'', 7 / 10)]"
    using print_topk_in_range [of ?flat 1 None]
    unfolding b by (auto simp: s1)
  from a c d show ?thesis by simp
qed

end
